theory Spec2Isabelle
  imports Main "HOL-Library.Word"
begin

section \<open>Errors and outcomes\<close>

text \<open>
  The three ways a member function of \<open>SimpleVector\<close> can fail to return:
  \<^item> \<open>out_of_range msg\<close>: the \<open>std::out_of_range\<close> thrown by \<open>At\<close>, with its message;
  \<^item> \<open>bad_alloc\<close>: the exception of a \<open>new Type[n]\<close> that cannot be satisfied;
  \<^item> \<open>undefined_behaviour\<close>: a read or write outside the array that a pointer points
    into (the C++ code performs no check there, so nothing can be said about what follows).
\<close>

datatype error = out_of_range string | bad_alloc | undefined_behaviour

definition and_then :: "error + 'a \<Rightarrow> ('a \<Rightarrow> error + 'b) \<Rightarrow> error + 'b" where
  "and_then m f = (case m of Inl e \<Rightarrow> Inl e | Inr x \<Rightarrow> f x)"

section \<open>The element type\<close>

text \<open>
  \<open>SimpleVector<Type>\<close> is a template. What the container uses of \<open>Type\<close>:
  \<^item> \<open>Type_init\<close>: the value of the expression \<open>Type()\<close>;
  \<^item> \<open>new_slot i\<close>: what slot \<open>i\<close> of a fresh \<open>new Type[n]\<close> holds (\<open>Type()\<close> for a class
    type, an indeterminate value for a scalar type);
  \<^item> \<open>moved_from x\<close>: what an object that held \<open>x\<close> holds after \<open>std::move\<close> took its
    value (\<open>x\<close> itself for a scalar type, a valid but unspecified value for a class type).
  Element equality \<open>==\<close> is HOL equality and element \<open><\<close> is the order of the type.
\<close>

record 'a Type_ops =
  Type_init :: 'a
  new_slot :: "nat \<Rightarrow> 'a"
  moved_from :: "'a \<Rightarrow> 'a"

section \<open>array\_ptr.h\<close>

text \<open>
  An \<open>ArrayPtr\<close> holds one raw pointer, which is null or owns a heap array. Copying an
  \<open>ArrayPtr\<close> is deleted and \<open>SimpleVector\<close> only ever swaps them, so no two of them
  point to the same array: the array is modelled as a value, the list of its slots, and
  the null pointer as the empty list (a zero-length array is never allocated).
  \<open>size_t\<close> is \<open>'w word\<close>, an unsigned integer of \<open>LENGTH('w)\<close> bits.

  \<open>ArrayPtr(size)\<close>: \<open>if (size) raw_ptr_ = new Type[size]\<close>. An array object takes at most
  \<open>PTRDIFF_MAX = 2 ^ (w - 1) - 1\<close> bytes and an element at least one byte, so a request
  for \<open>2 ^ (w - 1)\<close> elements or more throws. Below that the heap of the model never
  runs out.
\<close>

type_synonym 'a ArrayPtr = "'a list"

definition ArrayPtr :: "'a Type_ops \<Rightarrow> 'w::len word \<Rightarrow> error + 'a ArrayPtr" where
  "ArrayPtr T n =
     (if unat n < 2 ^ (LENGTH('w) - 1) then Inr (map (new_slot T) [0..<unat n])
      else Inl bad_alloc)"

text \<open>\<open>operator[]\<close> of \<open>ArrayPtr\<close>, \<open>*(raw_ptr_ + index)\<close>, read and written.\<close>

definition slot_read :: "'a ArrayPtr \<Rightarrow> nat \<Rightarrow> error + 'a" where
  "slot_read a i = (if i < length a then Inr (a ! i) else Inl undefined_behaviour)"

definition slot_write :: "'a ArrayPtr \<Rightarrow> nat \<Rightarrow> 'a \<Rightarrow> error + 'a ArrayPtr" where
  "slot_write a i x = (if i < length a then Inr (a[i := x]) else Inl undefined_behaviour)"

section \<open>The standard algorithms the container calls\<close>

text \<open>
  Pointers into an array are positions in the list. A range \<open>[first, last)\<close> that is not
  inside its array is undefined behaviour.
\<close>

definition range_of :: "'a ArrayPtr \<Rightarrow> nat \<Rightarrow> nat \<Rightarrow> error + 'a list" where
  "range_of a first last' =
     (if first \<le> last' \<and> last' \<le> length a then Inr (take (last' - first) (drop first a))
      else Inl undefined_behaviour)"

text \<open>\<open>std::fill(first, last, x)\<close> on the array \<open>a\<close>.\<close>

definition std_fill :: "'a ArrayPtr \<Rightarrow> nat \<Rightarrow> nat \<Rightarrow> 'a \<Rightarrow> error + 'a ArrayPtr" where
  "std_fill a first last' x =
     (if first \<le> last' \<and> last' \<le> length a
      then Inr (take first a @ replicate (last' - first) x @ drop last' a)
      else Inl undefined_behaviour)"

text \<open>
  \<open>std::copy(first, last, d)\<close> from the array \<open>src\<close> into another array \<open>dst\<close>, at
  position \<open>d\<close>. Where the source calls it with move iterators on an array that is
  destroyed when the member function returns (the old array of a reallocation), what is
  left in the source slots is of no consequence and the same function models it.
\<close>

definition std_copy :: "'a list \<Rightarrow> nat \<Rightarrow> nat \<Rightarrow> 'a ArrayPtr \<Rightarrow> nat \<Rightarrow> error + 'a ArrayPtr" where
  "std_copy src first last' dst d =
     (if first \<le> last' \<and> last' \<le> length src \<and> d + (last' - first) \<le> length dst
      then Inr (take d dst @ take (last' - first) (drop first src) @ drop (d + (last' - first)) dst)
      else Inl undefined_behaviour)"

text \<open>
  \<open>std::copy\<close> with move iterators inside one array \<open>a\<close>: \<open>n\<close> times
  \<open>*d++ = std::move(*first++)\<close>, front to back. Each step leaves its source slot
  moved-from.
\<close>

primrec move_forward :: "('a \<Rightarrow> 'a) \<Rightarrow> nat \<Rightarrow> nat \<Rightarrow> nat \<Rightarrow> 'a ArrayPtr \<Rightarrow> 'a ArrayPtr" where
  "move_forward mv 0 first d a = a"
| "move_forward mv (Suc n) first d a =
     move_forward mv n (Suc first) (Suc d) (a[d := a ! first, first := mv (a ! first)])"

definition std_copy_move :: "'a Type_ops \<Rightarrow> 'a ArrayPtr \<Rightarrow> nat \<Rightarrow> nat \<Rightarrow> nat \<Rightarrow> error + 'a ArrayPtr" where
  "std_copy_move T a first last' d =
     (if first \<le> last' \<and> last' \<le> length a \<and> d + (last' - first) \<le> length a
      then Inr (move_forward (moved_from T) (last' - first) first d a)
      else Inl undefined_behaviour)"

text \<open>
  \<open>std::copy_backward\<close> with move iterators inside one array: \<open>n\<close> times
  \<open>*--d_last = std::move(*--last)\<close>, back to front.
\<close>

primrec move_backward :: "('a \<Rightarrow> 'a) \<Rightarrow> nat \<Rightarrow> nat \<Rightarrow> nat \<Rightarrow> 'a ArrayPtr \<Rightarrow> 'a ArrayPtr" where
  "move_backward mv 0 last' d_last a = a"
| "move_backward mv (Suc n) last' d_last a =
     move_backward mv n (last' - 1) (d_last - 1)
       (a[d_last - 1 := a ! (last' - 1), last' - 1 := mv (a ! (last' - 1))])"

definition std_copy_backward_move ::
  "'a Type_ops \<Rightarrow> 'a ArrayPtr \<Rightarrow> nat \<Rightarrow> nat \<Rightarrow> nat \<Rightarrow> error + 'a ArrayPtr" where
  "std_copy_backward_move T a first last' d_last =
     (if first \<le> last' \<and> last' \<le> length a \<and> last' - first \<le> d_last \<and> d_last \<le> length a
      then Inr (move_backward (moved_from T) (last' - first) last' d_last a)
      else Inl undefined_behaviour)"

text \<open>\<open>std::equal(first1, last1, first2)\<close>: the second range is as long as the first.\<close>

definition std_equal :: "'a ArrayPtr \<Rightarrow> nat \<Rightarrow> nat \<Rightarrow> 'a ArrayPtr \<Rightarrow> nat \<Rightarrow> error + bool" where
  "std_equal a first1 last1 b first2 =
     and_then (range_of a first1 last1) (\<lambda>xs.
     and_then (range_of b first2 (first2 + (last1 - first1))) (\<lambda>ys.
     Inr (xs = ys)))"

text \<open>
  \<open>std::lexicographical_compare\<close> on the elements of two ranges: while both ranges have
  an element, \<open>if (*first1 < *first2) return true; if (*first2 < *first1) return false;\<close>
  and at the end \<open>return first1 == last1 && first2 != last2;\<close>
\<close>

fun lexicographical_compare :: "'a::ord list \<Rightarrow> 'a list \<Rightarrow> bool" where
  "lexicographical_compare (x # xs) (y # ys) =
     (if x < y then True else if y < x then False else lexicographical_compare xs ys)"
| "lexicographical_compare [] (y # ys) = True"
| "lexicographical_compare xs [] = False"

definition std_lexicographical_compare ::
  "'a::ord ArrayPtr \<Rightarrow> nat \<Rightarrow> nat \<Rightarrow> 'a ArrayPtr \<Rightarrow> nat \<Rightarrow> nat \<Rightarrow> error + bool" where
  "std_lexicographical_compare a first1 last1 b first2 last2 =
     and_then (range_of a first1 last1) (\<lambda>xs.
     and_then (range_of b first2 last2) (\<lambda>ys.
     Inr (lexicographical_compare xs ys)))"

section \<open>simple\_vector.h\<close>

text \<open>
  The data members \<open>items_\<close>, \<open>size_\<close> and \<open>capacity_\<close>; a name cannot end in an
  underscore here, so each ends in a prime. The record leaves the type of the two counters
  open; every function below uses it at \<open>size_t\<close>, that is \<open>'w word\<close>.
\<close>

record ('a, 'size_t) SimpleVector =
  items_' :: "'a ArrayPtr"
  size_' :: "'size_t"
  capacity_' :: "'size_t"

text \<open>The logical contents, the range \<open>[begin(), end())\<close>.\<close>

definition elements :: "('a, 'w::len word) SimpleVector \<Rightarrow> 'a list" where
  "elements v = take (unat (size_' v)) (items_' v)"

text \<open>
  \<open>invariant\<close> is the class invariant of the specification. \<open>well_formed\<close> is what
  every constructor establishes and every member function keeps about the array: it has
  at least \<open>capacity_\<close> slots, and it is an array that \<open>new Type[n]\<close> can return.
\<close>

definition invariant :: "('a, 'w::len word) SimpleVector \<Rightarrow> bool" where
  "invariant v \<longleftrightarrow> size_' v \<le> capacity_' v"

definition well_formed :: "('a, 'w::len word) SimpleVector \<Rightarrow> bool" where
  "well_formed v \<longleftrightarrow>
     unat (capacity_' v) \<le> length (items_' v) \<and> length (items_' v) < 2 ^ (LENGTH('w) - 1)"

text \<open>
  Both together put the elements inside the array, which is all that reading them needs.
\<close>

definition elements_in_array :: "('a, 'w::len word) SimpleVector \<Rightarrow> bool" where
  "elements_in_array v \<longleftrightarrow> unat (size_' v) \<le> length (items_' v)"

subsection \<open>Constructors\<close>

text \<open>\<open>SimpleVector() noexcept = default;\<close> with the member initialisers \<open>{}\<close>, 0 and 0.\<close>

definition SimpleVector_default :: "('a, 'w::len word) SimpleVector" where
  "SimpleVector_default = \<lparr>items_' = [], size_' = 0, capacity_' = 0\<rparr>"

text \<open>\<open>explicit SimpleVector(size_t size)\<close>\<close>

definition SimpleVector_sized :: "'a Type_ops \<Rightarrow> 'w::len word \<Rightarrow> error + ('a, 'w word) SimpleVector" where
  "SimpleVector_sized T n =
     and_then (ArrayPtr T n) (\<lambda>a.
       if n \<noteq> 0 then
         and_then (std_fill a 0 (unat n) (Type_init T)) (\<lambda>a1.
         Inr \<lparr>items_' = a1, size_' = n, capacity_' = n\<rparr>)
       else Inr \<lparr>items_' = a, size_' = 0, capacity_' = 0\<rparr>)"

text \<open>\<open>SimpleVector(size_t size, const Type& value)\<close>\<close>

definition SimpleVector_filled ::
  "'a Type_ops \<Rightarrow> 'w::len word \<Rightarrow> 'a \<Rightarrow> error + ('a, 'w word) SimpleVector" where
  "SimpleVector_filled T n x =
     and_then (ArrayPtr T n) (\<lambda>a.
       if n \<noteq> 0 then
         and_then (std_fill a 0 (unat n) x) (\<lambda>a1.
         Inr \<lparr>items_' = a1, size_' = n, capacity_' = n\<rparr>)
       else Inr \<lparr>items_' = a, size_' = 0, capacity_' = 0\<rparr>)"

text \<open>
  \<open>SimpleVector(std::initializer_list<Type> init)\<close>. \<open>init.size()\<close> is a \<open>size_t\<close>: the
  list has fewer than \<open>2 ^ w\<close> elements.
\<close>

definition SimpleVector_init :: "'a Type_ops \<Rightarrow> 'a list \<Rightarrow> error + ('a, 'w::len word) SimpleVector" where
  "SimpleVector_init T init =
     and_then (ArrayPtr T (of_nat (length init) :: 'w word)) (\<lambda>a.
     and_then (std_copy init 0 (length init) a 0) (\<lambda>a1.
     Inr \<lparr>items_' = a1, size_' = of_nat (length init), capacity_' = of_nat (length init)\<rparr>))"

text \<open>
  \<open>SimpleVector(const SimpleVector& other)\<close>: the array has \<open>other.capacity_\<close> slots, the
  elements of \<open>other\<close> are copied into it and \<open>size_\<close> is set. No statement assigns
  \<open>capacity_\<close>: it keeps the 0 of its member initialiser.
\<close>

definition SimpleVector_copy :: "'a Type_ops \<Rightarrow> ('a, 'w::len word) SimpleVector \<Rightarrow> error + ('a, 'w word) SimpleVector" where
  "SimpleVector_copy T other =
     and_then (ArrayPtr T (capacity_' other)) (\<lambda>a.
     and_then (std_copy (items_' other) 0 (unat (size_' other)) a 0) (\<lambda>a1.
     Inr \<lparr>items_' = a1, size_' = size_' other, capacity_' = 0\<rparr>))"

text \<open>\<open>SimpleVector(const ReserveProxyObj& new_capacity)\<close>\<close>

definition SimpleVector_reserved :: "'a Type_ops \<Rightarrow> 'w::len word \<Rightarrow> error + ('a, 'w word) SimpleVector" where
  "SimpleVector_reserved T new_capacity =
     and_then (ArrayPtr T new_capacity) (\<lambda>a.
     Inr \<lparr>items_' = a, size_' = 0, capacity_' = new_capacity\<rparr>)"

text \<open>\<open>swap(other)\<close> exchanges the three members; it returns both vectors.\<close>

definition swap ::
  "('a, 'w::len word) SimpleVector \<Rightarrow> ('a, 'w word) SimpleVector
     \<Rightarrow> ('a, 'w word) SimpleVector \<times> ('a, 'w word) SimpleVector" where
  "swap this other =
     (this\<lparr>items_' := items_' other, size_' := size_' other, capacity_' := capacity_' other\<rparr>,
      other\<lparr>items_' := items_' this, size_' := size_' this, capacity_' := capacity_' this\<rparr>)"

text \<open>
  \<open>SimpleVector(SimpleVector&& other) noexcept { swap(other); }\<close>: the new vector starts
  from its member initialisers. Returns the new vector and \<open>other\<close> as it is left.
\<close>

definition SimpleVector_move ::
  "('a, 'w::len word) SimpleVector \<Rightarrow> ('a, 'w word) SimpleVector \<times> ('a, 'w word) SimpleVector" where
  "SimpleVector_move other = swap SimpleVector_default other"

subsection \<open>Assignment\<close>

text \<open>
  The assignment operators take two references, which may be to the same vector
  (\<open>this != &rhs\<close>). The program's vectors live in a store, from addresses to vectors,
  and the operators take the two addresses. The temporary \<open>tmp\<close> is local and is
  destroyed on return.
\<close>

type_synonym ('a, 'w) store = "nat \<Rightarrow> ('a, 'w word) SimpleVector"

definition copy_assign ::
  "'a Type_ops \<Rightarrow> ('a, 'w::len) store \<Rightarrow> nat \<Rightarrow> nat \<Rightarrow> error + ('a, 'w) store" where
  "copy_assign T st this rhs =
     (if this \<noteq> rhs then
        and_then (SimpleVector_copy T (st rhs)) (\<lambda>tmp.
        case swap (st this) tmp of (this', tmp') \<Rightarrow> Inr (st(this := this')))
      else Inr st)"

definition move_assign :: "('a, 'w::len) store \<Rightarrow> nat \<Rightarrow> nat \<Rightarrow> ('a, 'w) store" where
  "move_assign st this rhs =
     (case SimpleVector_move (st rhs) of (tmp, rhs') \<Rightarrow>
        let st1 = st(rhs := rhs') in
        case swap (st1 this) tmp of (this', tmp') \<Rightarrow> st1(this := this'))"

subsection \<open>Member functions\<close>

text \<open>\<open>GetSize\<close>, \<open>GetCapacity\<close> and \<open>IsEmpty\<close>\<close>

definition GetSize :: "('a, 'w::len word) SimpleVector \<Rightarrow> 'w word" where
  "GetSize v = size_' v"

definition GetCapacity :: "('a, 'w::len word) SimpleVector \<Rightarrow> 'w word" where
  "GetCapacity v = capacity_' v"

definition IsEmpty :: "('a, 'w::len word) SimpleVector \<Rightarrow> bool" where
  "IsEmpty v \<longleftrightarrow> size_' v = 0"

text \<open>\<open>void Reserve(size_t new_capacity)\<close>\<close>

definition Reserve :: "'a Type_ops \<Rightarrow> 'w::len word \<Rightarrow> ('a, 'w word) SimpleVector \<Rightarrow> error + ('a, 'w word) SimpleVector" where
  "Reserve T new_capacity v =
     (if new_capacity > capacity_' v then
        and_then (ArrayPtr T new_capacity) (\<lambda>new_array_ptr.
        and_then (std_fill new_array_ptr 0 (unat new_capacity) (Type_init T)) (\<lambda>a1.
        and_then (std_copy (items_' v) 0 (unat (size_' v)) a1 0) (\<lambda>a2.
        Inr (v\<lparr>items_' := a2, capacity_' := new_capacity\<rparr>))))
      else Inr v)"

text \<open>\<open>void PushBack(Type item)\<close>\<close>

definition PushBack :: "'a Type_ops \<Rightarrow> 'a \<Rightarrow> ('a, 'w::len word) SimpleVector \<Rightarrow> error + ('a, 'w word) SimpleVector" where
  "PushBack T item v =
     (if size_' v < capacity_' v then
        and_then (slot_write (items_' v) (unat (size_' v)) item) (\<lambda>a.
        Inr (v\<lparr>items_' := a, size_' := size_' v + 1\<rparr>))
      else
        let new_capacity = max 1 (capacity_' v * 2) in
        and_then (ArrayPtr T new_capacity) (\<lambda>new_array_ptr.
        and_then (std_copy (items_' v) 0 (unat (size_' v)) new_array_ptr 0) (\<lambda>a1.
        and_then (slot_write a1 (unat (size_' v)) item) (\<lambda>a2.
        Inr (v\<lparr>items_' := a2, size_' := size_' v + 1, capacity_' := new_capacity\<rparr>)))))"

text \<open>
  \<open>Iterator Insert(ConstIterator pos, Type value)\<close>. The iterator is given by its
  distance from \<open>begin()\<close>, which is what the function computes first
  (\<open>index = pos - begin()\<close>), and the iterator returned is given the same way.
\<close>

definition Insert ::
  "'a Type_ops \<Rightarrow> 'w::len word \<Rightarrow> 'a \<Rightarrow> ('a, 'w word) SimpleVector
     \<Rightarrow> error + ('a, 'w word) SimpleVector \<times> 'w word" where
  "Insert T index val v =
     (if size_' v < capacity_' v then
        and_then (std_copy_backward_move T (items_' v) (unat index) (unat (size_' v))
                    (unat (size_' v) + 1)) (\<lambda>a1.
        and_then (slot_write a1 (unat index) val) (\<lambda>a2.
        Inr (v\<lparr>items_' := a2, size_' := size_' v + 1\<rparr>, index)))
      else
        let new_capacity = max 1 (capacity_' v * 2) in
        and_then (ArrayPtr T new_capacity) (\<lambda>new_array_ptr.
        and_then (std_copy (items_' v) 0 (unat index) new_array_ptr 0) (\<lambda>a1.
        and_then (slot_write a1 (unat index) val) (\<lambda>a2.
        and_then (std_copy (items_' v) (unat index) (unat (size_' v)) a2 (unat index + 1)) (\<lambda>a3.
        Inr (v\<lparr>items_' := a3, size_' := size_' v + 1, capacity_' := new_capacity\<rparr>, index))))))"

text \<open>\<open>void PopBack() noexcept { --size_; }\<close>\<close>

definition PopBack :: "('a, 'w::len word) SimpleVector \<Rightarrow> ('a, 'w word) SimpleVector" where
  "PopBack v = v\<lparr>size_' := size_' v - 1\<rparr>"

text \<open>\<open>Iterator Erase(ConstIterator pos)\<close>, with iterators as in \<open>Insert\<close>.\<close>

definition Erase ::
  "'a Type_ops \<Rightarrow> 'w::len word \<Rightarrow> ('a, 'w word) SimpleVector
     \<Rightarrow> error + ('a, 'w word) SimpleVector \<times> 'w word" where
  "Erase T index v =
     and_then (std_copy_move T (items_' v) (unat (index + 1)) (unat (size_' v)) (unat index)) (\<lambda>a.
     Inr (v\<lparr>items_' := a, size_' := size_' v - 1\<rparr>, index))"

text \<open>\<open>operator[]\<close> of \<open>SimpleVector\<close>: \<open>return items_[index];\<close>\<close>

definition subscript :: "('a, 'w::len word) SimpleVector \<Rightarrow> 'w word \<Rightarrow> error + 'a" where
  "subscript v index = slot_read (items_' v) (unat index)"

text \<open>
  \<open>At\<close> throws by itself, and the vector outlives the exception: \<open>At\<close> returns its
  outcome together with the vector as it leaves it.
\<close>

definition At :: "'w::len word \<Rightarrow> ('a, 'w word) SimpleVector \<Rightarrow> (error + 'a) \<times> ('a, 'w word) SimpleVector" where
  "At index v =
     (if index \<ge> size_' v then (Inl (out_of_range ''index >= size''), v)
      else (slot_read (items_' v) (unat index), v))"

text \<open>\<open>void Clear() noexcept { size_ = 0; }\<close>\<close>

definition Clear :: "('a, 'w::len word) SimpleVector \<Rightarrow> ('a, 'w word) SimpleVector" where
  "Clear v = v\<lparr>size_' := 0\<rparr>"

text \<open>
  \<open>void Resize(size_t new_size)\<close>. The loop of its second branch,
  \<open>for (size_t i = size_; i < new_size; i++) items_[i] = Type();\<close>, is \<open>Resize_loop\<close>.
  That branch assigns no data member.
\<close>

function Resize_loop :: "'a Type_ops \<Rightarrow> 'w::len word \<Rightarrow> 'w word \<Rightarrow> 'a ArrayPtr \<Rightarrow> error + 'a ArrayPtr" where
  "Resize_loop T i new_size a =
     (if i < new_size then
        and_then (slot_write a (unat i) (Type_init T)) (\<lambda>a1. Resize_loop T (i + 1) new_size a1)
      else Inr a)"
  by pat_completeness auto
termination
proof (relation "measure (\<lambda>(T, i, new_size, a). unat new_size - unat i)")
  show "wf (measure (\<lambda>(T, i, new_size, a). unat new_size - unat i))"
    by simp
next
  fix T :: "'a Type_ops" and i new_size :: "'w::len word" and a x2 :: "'a ArrayPtr"
  assume lt: "i < new_size"
  then have "unat (i + 1) = unat i + 1"
    by (metis (mono_tags, lifting) inc_i less_add_same_cancel2 less_eq_iff_succ_less
        not_gr_zero olen_add_eqv unat_plus_simple unsigned_1 word_less_eq_iff_unsigned)
  with lt show "((T, i + 1, new_size, x2), (T, i, new_size, a))
        \<in> measure (\<lambda>(T, i, new_size, a). unat new_size - unat i)"
    by (simp add: word_less_nat_alt)
qed

declare Resize_loop.simps [simp del]

definition Resize :: "'a Type_ops \<Rightarrow> 'w::len word \<Rightarrow> ('a, 'w word) SimpleVector \<Rightarrow> error + ('a, 'w word) SimpleVector" where
  "Resize T new_size v =
     (if new_size \<le> size_' v then Inr (v\<lparr>size_' := new_size\<rparr>)
      else if new_size \<le> capacity_' v then
        and_then (Resize_loop T (size_' v) new_size (items_' v)) (\<lambda>a. Inr (v\<lparr>items_' := a\<rparr>))
      else
        let new_capacity = max (capacity_' v * 2) new_size in
        and_then (ArrayPtr T new_capacity) (\<lambda>new_array.
        and_then (std_fill new_array 0 (unat new_capacity) (Type_init T)) (\<lambda>a1.
        and_then (std_copy (items_' v) 0 (unat (size_' v)) a1 0) (\<lambda>a2.
        Inr (v\<lparr>items_' := a2, size_' := new_size, capacity_' := new_capacity\<rparr>)))))"

subsection \<open>Comparison operators\<close>

definition operator_eq :: "('a, 'w::len word) SimpleVector \<Rightarrow> ('a, 'w word) SimpleVector \<Rightarrow> error + bool" where
  "operator_eq lhs rhs =
     (if GetSize lhs = GetSize rhs
      then std_equal (items_' lhs) 0 (unat (size_' lhs)) (items_' rhs) 0
      else Inr False)"

definition operator_ne :: "('a, 'w::len word) SimpleVector \<Rightarrow> ('a, 'w word) SimpleVector \<Rightarrow> error + bool" where
  "operator_ne lhs rhs = and_then (operator_eq lhs rhs) (\<lambda>r. Inr (\<not> r))"

definition operator_lt :: "('a::ord, 'w::len word) SimpleVector \<Rightarrow> ('a, 'w word) SimpleVector \<Rightarrow> error + bool" where
  "operator_lt lhs rhs =
     std_lexicographical_compare (items_' lhs) 0 (unat (size_' lhs))
       (items_' rhs) 0 (unat (size_' rhs))"

definition operator_le :: "('a::ord, 'w::len word) SimpleVector \<Rightarrow> ('a, 'w word) SimpleVector \<Rightarrow> error + bool" where
  "operator_le lhs rhs = and_then (operator_lt rhs lhs) (\<lambda>r. Inr (\<not> r))"

definition operator_gt :: "('a::ord, 'w::len word) SimpleVector \<Rightarrow> ('a, 'w word) SimpleVector \<Rightarrow> error + bool" where
  "operator_gt lhs rhs = and_then (operator_le lhs rhs) (\<lambda>r. Inr (\<not> r))"

definition operator_ge :: "('a::ord, 'w::len word) SimpleVector \<Rightarrow> ('a, 'w word) SimpleVector \<Rightarrow> error + bool" where
  "operator_ge lhs rhs = and_then (operator_lt lhs rhs) (\<lambda>r. Inr (\<not> r))"

subsection \<open>Calling sequences\<close>

text \<open>\<open>PushBack\<close> of each value of a list, in order: \<open>for (auto x : xs) v.PushBack(x);\<close>\<close>

fun PushBack_all ::
  "'a Type_ops \<Rightarrow> 'a list \<Rightarrow> ('a, 'w::len word) SimpleVector \<Rightarrow> error + ('a, 'w word) SimpleVector" where
  "PushBack_all T [] v = Inr v"
| "PushBack_all T (x # xs) v = and_then (PushBack T x v) (PushBack_all T xs)"

text \<open>
  \<open>SimpleVector<int>\<close>: \<open>int()\<close> is 0, an \<open>int\<close> that was moved from keeps its value, and
  the slots of a \<open>new int[n]\<close> hold whatever the heap held, here 42. The container copies
  and compares its elements and never computes with them.
\<close>

definition int_ops :: "int Type_ops" where
  "int_ops = \<lparr>Type_init = 0, new_slot = (\<lambda>i. 42), moved_from = (\<lambda>x. x)\<rparr>"

section \<open>Auxiliary facts\<close>

lemma and_then_Inr [simp]: "and_then (Inr x) f = f x"
  by (simp add: and_then_def)

lemma and_then_Inl [simp]: "and_then (Inl e) f = Inl e"
  by (simp add: and_then_def)

subsection \<open>Arithmetic of \<open>size_t\<close>\<close>

lemma unat_succ: "(i::'w::len word) < n \<Longrightarrow> unat (i + 1) = unat i + 1"
  by (metis (mono_tags, lifting) inc_i less_add_same_cancel2 less_eq_iff_succ_less
      not_gr_zero olen_add_eqv unat_plus_simple unsigned_1 word_less_eq_iff_unsigned)

lemma half_le_max: "(2::nat) ^ (LENGTH('w::len) - 1) \<le> 2 ^ LENGTH('w) - 1"
proof -
  obtain m where m: "LENGTH('w) = Suc m"
    by (metis len_gt_0 Suc_pred')
  have "(1::nat) \<le> 2 ^ m" by simp
  then show ?thesis unfolding m by simp
qed

lemma twice_half: "(2::nat) * 2 ^ (LENGTH('w::len) - 1) = 2 ^ LENGTH('w)"
proof -
  obtain m where m: "LENGTH('w) = Suc m"
    by (metis len_gt_0 Suc_pred')
  show ?thesis unfolding m by simp
qed

lemma unat_double:
  fixes c :: "'w::len word"
  assumes "unat c < 2 ^ (LENGTH('w) - 1)"
  shows "unat (c * 2) = 2 * unat c"
proof -
  have "unat c + unat c < 2 ^ LENGTH('w)"
    using assms twice_half [where 'w='w] by linarith
  then have "unat (c + c) = unat c + unat c"
    by (simp only: unat_add_lem)
  moreover have "c * 2 = c + c"
    by simp
  ultimately show ?thesis
    by (simp only: mult_2)
qed

lemma unat_zero_minus_one: "unat (0 - 1 :: 'w::len word) = 2 ^ LENGTH('w) - 1"
  by (metis add_0 not_numeral_le_zero numeral_One unat_1 unat_sub_if' unsigned_0)

lemma unat_max: "unat (max a b) = max (unat a) (unat (b::'w::len word))"
  by (simp add: max_def word_le_nat_alt)

subsection \<open>Vectors that satisfy the invariants\<close>

lemma in_buffer:
  "invariant v \<Longrightarrow> well_formed v \<Longrightarrow> unat (size_' v) \<le> length (items_' v)"
  by (simp add: invariant_def well_formed_def word_le_nat_alt)

lemma elements_in_array:
  "invariant v \<Longrightarrow> well_formed v \<Longrightarrow> elements_in_array v"
  by (simp add: elements_in_array_def in_buffer)

lemma swap_exchanges: "swap a b = (b, a)"
  by (simp add: swap_def)

lemma range_of_prefix: "n \<le> length a \<Longrightarrow> range_of a 0 n = Inr (take n a)"
  by (simp add: range_of_def)

lemma SimpleVector_init_123:
  "(SimpleVector_init T [1, 2, 3 :: int] :: error + (int, 64 word) SimpleVector)
     = Inr \<lparr>items_' = [1, 2, 3], size_' = 3, capacity_' = 3\<rparr>"
  by (simp add: SimpleVector_init_def ArrayPtr_def std_copy_def)

subsection \<open>Allocation, fill and copy\<close>

lemma ArrayPtr_Inr:
  fixes n :: "'w::len word"
  assumes "unat n < 2 ^ (LENGTH('w) - 1)"
  shows "ArrayPtr T n = Inr (map (new_slot T) [0..<unat n])"
  using assms by (simp add: ArrayPtr_def)

lemma ArrayPtr_succeeds:
  fixes n :: "'w::len word"
  shows "ArrayPtr T n \<noteq> Inl bad_alloc \<longleftrightarrow> unat n < 2 ^ (LENGTH('w) - 1)"
  by (simp add: ArrayPtr_def)

lemma std_fill_whole: "length a = n \<Longrightarrow> std_fill a 0 n x = Inr (replicate n x)"
  by (simp add: std_fill_def)

lemma std_copy_prefix:
  "s \<le> length src \<Longrightarrow> s \<le> length dst \<Longrightarrow> std_copy src 0 s dst 0 = Inr (take s src @ drop s dst)"
  by (simp add: std_copy_def)

lemma take_Suc_update: "i < length a \<Longrightarrow> take (Suc i) (a[i := x]) = take i a @ [x]"
  by (simp add: take_Suc_conv_app_nth)

lemma slot_write_Inr: "i < length a \<Longrightarrow> slot_write a i x = Inr (a[i := x])"
  by (simp add: slot_write_def)

section \<open>\<open>PopBack\<close> on an empty vector\<close>

text \<open>
  C10. \<open>PopBack\<close> on a vector of size 0 sets the size to \<open>2 ^ w - 1\<close>, where \<open>w\<close> is the
  width of \<open>size_t\<close>: the decrement wraps around. The size then exceeds the capacity, and
  the capacity and the array are as they were.
\<close>

theorem PopBack_empty_wraps:
  fixes v :: "('a, 'w::len word) SimpleVector"
  assumes "well_formed v" and "size_' v = 0"
  shows "unat (size_' (PopBack v)) = 2 ^ LENGTH('w) - 1
       \<and> capacity_' (PopBack v) < size_' (PopBack v)
       \<and> \<not> invariant (PopBack v)
       \<and> capacity_' (PopBack v) = capacity_' v
       \<and> items_' (PopBack v) = items_' v"
proof -
  have s: "unat (size_' (PopBack v)) = 2 ^ LENGTH('w) - 1"
  proof -
    have "size_' (PopBack v) = 0 - 1"
      using assms(2) by (simp add: PopBack_def)
    then show ?thesis
      by (simp only: unat_zero_minus_one)
  qed
  have c: "unat (capacity_' v) < 2 ^ (LENGTH('w) - 1)"
    using assms(1) by (simp add: well_formed_def)
  with s half_le_max [where 'w='w] have lt: "capacity_' (PopBack v) < size_' (PopBack v)"
    by (simp add: word_less_nat_alt PopBack_def)
  show ?thesis using s lt by (simp add: PopBack_def invariant_def)
qed

theorem PopBack_empty_wraps_witness:
  "well_formed (SimpleVector_default :: (int, 64 word) SimpleVector)
   \<and> size_' (SimpleVector_default :: (int, 64 word) SimpleVector) = 0
   \<and> unat (size_' (PopBack (SimpleVector_default :: (int, 64 word) SimpleVector))) = 2 ^ 64 - 1
   \<and> capacity_' (PopBack (SimpleVector_default :: (int, 64 word) SimpleVector)) = 0"
proof -
  let ?v = "SimpleVector_default :: (int, 64 word) SimpleVector"
  have h1: "well_formed ?v" by (simp add: well_formed_def SimpleVector_default_def)
  have h2: "size_' ?v = 0" by (simp add: SimpleVector_default_def)
  show ?thesis using h1 h2 PopBack_empty_wraps [OF h1 h2]
    by (simp add: SimpleVector_default_def)
qed

section \<open>Checked access\<close>

text \<open>
  C7. \<open>At(i)\<close> throws \<open>std::out_of_range\<close> exactly when \<open>i \<ge> size\<close>, with the message
  \<open>index >= size\<close>, and whatever its outcome it leaves the vector as it was. For
  \<open>i < size\<close> its outcome is that of \<open>operator[](i)\<close>, and on a vector whose elements
  are inside its array that is the element in slot \<open>i\<close>.
\<close>

theorem At_checked:
  fixes v :: "('a, 'w::len word) SimpleVector"
  shows "(size_' v \<le> i \<longleftrightarrow> (\<exists>msg. fst (At i v) = Inl (out_of_range msg)))
       \<and> (size_' v \<le> i \<longrightarrow> fst (At i v) = Inl (out_of_range ''index >= size''))
       \<and> snd (At i v) = v
       \<and> (i < size_' v \<longrightarrow> fst (At i v) = subscript v i)
       \<and> (i < size_' v \<and> elements_in_array v \<longrightarrow> fst (At i v) = Inr (items_' v ! unat i))"
  by (auto simp: At_def subscript_def slot_read_def elements_in_array_def
      word_less_nat_alt word_le_nat_alt)

theorem At_checked_witness:
  "fst (At 1 (\<lparr>items_' = [10, 20, 30], size_' = 3, capacity_' = 3\<rparr> :: (int, 64 word) SimpleVector))
     = Inr 20
   \<and> subscript (\<lparr>items_' = [10, 20, 30], size_' = 3, capacity_' = 3\<rparr> :: (int, 64 word) SimpleVector) 1
     = Inr 20
   \<and> fst (At 3 (\<lparr>items_' = [10, 20, 30], size_' = 3, capacity_' = 3\<rparr> :: (int, 64 word) SimpleVector))
     = Inl (out_of_range ''index >= size'')"
proof -
  let ?v = "\<lparr>items_' = [10, 20, 30], size_' = 3, capacity_' = 3\<rparr> :: (int, 64 word) SimpleVector"
  have h: "(1::64 word) < size_' ?v \<and> elements_in_array ?v"
    by (simp add: elements_in_array_def)
  have h3: "size_' ?v \<le> (3::64 word)"
    by simp
  from h At_checked [of ?v 1] have a: "fst (At 1 ?v) = Inr (items_' ?v ! unat (1::64 word))"
    and b: "fst (At 1 ?v) = subscript ?v 1"
    by blast+
  from h3 At_checked [of ?v 3] have c: "fst (At 3 ?v) = Inl (out_of_range ''index >= size'')"
    by blast
  from a b c show ?thesis
    by simp
qed

section \<open>Move construction and move assignment\<close>



section \<open>Comparison operators\<close>

lemma lexicographical_compare_lexord:
  "lexicographical_compare xs ys \<longleftrightarrow> (xs, ys) \<in> lexord {(x, y). x < (y::'a::linorder)}"
  by (induction xs ys rule: lexicographical_compare.induct) auto

lemma operator_lt_elements:
  assumes "elements_in_array a" and "elements_in_array b"
  shows "operator_lt a b = Inr (lexicographical_compare (elements a) (elements b))"
  using assms
  by (simp add: operator_lt_def std_lexicographical_compare_def range_of_prefix elements_def
      elements_in_array_def)

lemma operator_eq_elements:
  assumes "elements_in_array a" and "elements_in_array b"
  shows "operator_eq a b = Inr (size_' a = size_' b \<and> elements a = elements b)"
proof (cases "size_' a = size_' b")
  case True
  with assms
  have "range_of (items_' a) 0 (unat (size_' a)) = Inr (take (unat (size_' a)) (items_' a))"
    and "range_of (items_' b) 0 (unat (size_' a)) = Inr (take (unat (size_' a)) (items_' b))"
    by (simp_all add: range_of_prefix elements_in_array_def)
  with True show ?thesis
    by (simp add: operator_eq_def GetSize_def std_equal_def elements_def)
next
  case False
  then show ?thesis
    by (simp add: operator_eq_def GetSize_def)
qed

lemma elements_eq_iff:
  assumes "elements_in_array a" and "elements_in_array b" and "size_' a = size_' b"
  shows "elements a = elements b \<longleftrightarrow> (\<forall>i < unat (size_' a). items_' a ! i = items_' b ! i)"
  using assms by (auto simp: elements_def elements_in_array_def list_eq_iff_nth_eq)

text \<open>
  C8. On vectors whose elements are inside their arrays, over an element type with a
  linear order:
  \<open>a == b\<close> is true iff the sizes are equal and the elements are equal slot by slot;
  \<open>a < b\<close> is true iff the elements of \<open>a\<close> come before those of \<open>b\<close> in the
  lexicographic order; \<open>a != b\<close> is the negation of \<open>a == b\<close>, \<open>a <= b\<close> that of \<open>b < a\<close>,
  \<open>a > b\<close> that of \<open>a <= b\<close> and \<open>a >= b\<close> that of \<open>a < b\<close>.
\<close>

theorem comparison_operators:
  fixes a b :: "('a::linorder, 'w::len word) SimpleVector"
  assumes "elements_in_array a" and "elements_in_array b"
  shows "operator_eq a b
           = Inr (size_' a = size_' b \<and> (\<forall>i < unat (size_' a). items_' a ! i = items_' b ! i))
       \<and> operator_lt a b = Inr ((elements a, elements b) \<in> lexord {(x, y). x < y})
       \<and> (\<exists>eq. operator_eq a b = Inr eq \<and> operator_ne a b = Inr (\<not> eq))
       \<and> (\<exists>lt. operator_lt b a = Inr lt \<and> operator_le a b = Inr (\<not> lt))
       \<and> (\<exists>le. operator_le a b = Inr le \<and> operator_gt a b = Inr (\<not> le))
       \<and> (\<exists>lt. operator_lt a b = Inr lt \<and> operator_ge a b = Inr (\<not> lt))"
proof -
  have e: "operator_eq a b = Inr (size_' a = size_' b \<and> elements a = elements b)"
    by (rule operator_eq_elements [OF assms])
  have l: "operator_lt a b = Inr (lexicographical_compare (elements a) (elements b))"
    by (rule operator_lt_elements [OF assms])
  have g: "operator_lt b a = Inr (lexicographical_compare (elements b) (elements a))"
    by (rule operator_lt_elements [OF assms(2,1)])
  have p: "(size_' a = size_' b \<and> elements a = elements b)
       \<longleftrightarrow> size_' a = size_' b \<and> (\<forall>i < unat (size_' a). items_' a ! i = items_' b ! i)"
    using elements_eq_iff [OF assms] by blast
  show ?thesis
    using p by (simp add: e l g operator_ne_def operator_le_def operator_gt_def operator_ge_def
        lexicographical_compare_lexord)
qed

text \<open>
  The three comparisons the specification lists, \<open>{1,2,3} == {1,2,3}\<close>,
  \<open>{1,2} < {1,2,3}\<close> and \<open>{1,3} > {1,2,9}\<close>, on the vectors that the initializer-list
  constructor builds.
\<close>

theorem comparison_operators_witness:
  "operator_eq (\<lparr>items_' = [1, 2, 3], size_' = 3, capacity_' = 3\<rparr> :: (int, 64 word) SimpleVector)
               \<lparr>items_' = [1, 2, 3], size_' = 3, capacity_' = 3\<rparr> = Inr True
   \<and> operator_lt (\<lparr>items_' = [1, 2], size_' = 2, capacity_' = 2\<rparr> :: (int, 64 word) SimpleVector)
               \<lparr>items_' = [1, 2, 3], size_' = 3, capacity_' = 3\<rparr> = Inr True
   \<and> operator_gt (\<lparr>items_' = [1, 3], size_' = 2, capacity_' = 2\<rparr> :: (int, 64 word) SimpleVector)
               \<lparr>items_' = [1, 2, 9], size_' = 3, capacity_' = 3\<rparr> = Inr True"
proof -
  let ?v123 = "\<lparr>items_' = [1, 2, 3], size_' = 3, capacity_' = 3\<rparr> :: (int, 64 word) SimpleVector"
  let ?v12 = "\<lparr>items_' = [1, 2], size_' = 2, capacity_' = 2\<rparr> :: (int, 64 word) SimpleVector"
  let ?v13 = "\<lparr>items_' = [1, 3], size_' = 2, capacity_' = 2\<rparr> :: (int, 64 word) SimpleVector"
  let ?v129 = "\<lparr>items_' = [1, 2, 9], size_' = 3, capacity_' = 3\<rparr> :: (int, 64 word) SimpleVector"
  have i: "elements_in_array ?v123" "elements_in_array ?v12" "elements_in_array ?v13"
      "elements_in_array ?v129"
    by (simp_all add: elements_in_array_def)
  have e: "operator_eq ?v123 ?v123 = Inr True"
    using comparison_operators [OF i(1) i(1)] by simp
  have l: "operator_lt ?v12 ?v123 = Inr True"
    using comparison_operators [OF i(2) i(1)] by (simp add: elements_def)
  from comparison_operators [OF i(3) i(4)]
  obtain le where "operator_le ?v13 ?v129 = Inr le" and "operator_gt ?v13 ?v129 = Inr (\<not> le)"
    by blast
  moreover
  from comparison_operators [OF i(3) i(4)]
  obtain lt where "operator_lt ?v129 ?v13 = Inr lt" and "operator_le ?v13 ?v129 = Inr (\<not> lt)"
    by blast
  moreover
  have "operator_lt ?v129 ?v13 = Inr True"
    using comparison_operators [OF i(4) i(3)] by (simp add: elements_def)
  ultimately have g: "operator_gt ?v13 ?v129 = Inr True"
    by simp
  from e l g show ?thesis
    by simp
qed

section \<open>\<open>Reserve\<close>\<close>

text \<open>
  What \<open>Reserve\<close> does. \<open>Reserve(n)\<close> with \<open>n \<le> capacity\<close> returns the vector as it was,
  whatever the vector. \<open>Reserve(n)\<close> with \<open>n > capacity\<close>, on a vector whose elements
  are inside its array and whose size is at most \<open>n\<close> (so on every vector with
  \<open>size \<le> capacity\<close>), when the allocation of \<open>n\<close> slots succeeds, returns a vector of
  capacity exactly \<open>n\<close>, with the size and the elements it had, and with \<open>Type()\<close> in
  every slot from \<open>size\<close> up to \<open>n\<close>; when the allocation fails, \<open>Reserve\<close> throws.
  Whenever \<open>Reserve\<close> returns, the capacity is not less than it was.
\<close>

lemma Reserve_spec:
  fixes v :: "('a, 'w::len word) SimpleVector"
  shows "(n \<le> capacity_' v \<longrightarrow> Reserve T n v = Inr v)
       \<and> (capacity_' v < n \<and> size_' v \<le> n \<and> elements_in_array v
            \<and> ArrayPtr T n \<noteq> Inl bad_alloc \<longrightarrow>
            (\<exists>v'. Reserve T n v = Inr v'
                 \<and> capacity_' v' = n \<and> length (items_' v') = unat n
                 \<and> size_' v' = size_' v \<and> elements v' = elements v
                 \<and> (\<forall>i. unat (size_' v) \<le> i \<and> i < unat n \<longrightarrow> items_' v' ! i = Type_init T)
                 \<and> invariant v' \<and> well_formed v'))
       \<and> (capacity_' v < n \<and> ArrayPtr T n = Inl bad_alloc \<longrightarrow> Reserve T n v = Inl bad_alloc)
       \<and> (\<forall>v'. Reserve T n v = Inr v' \<longrightarrow> capacity_' v \<le> capacity_' v')"
proof -
  have noop: "n \<le> capacity_' v \<Longrightarrow> Reserve T n v = Inr v"
    by (auto simp: Reserve_def)
  have fail: "capacity_' v < n \<Longrightarrow> ArrayPtr T n = Inl bad_alloc \<Longrightarrow> Reserve T n v = Inl bad_alloc"
    by (simp add: Reserve_def)
  have grow: "\<exists>v'. Reserve T n v = Inr v'
                 \<and> capacity_' v' = n \<and> length (items_' v') = unat n
                 \<and> size_' v' = size_' v \<and> elements v' = elements v
                 \<and> (\<forall>i. unat (size_' v) \<le> i \<and> i < unat n \<longrightarrow> items_' v' ! i = Type_init T)
                 \<and> invariant v' \<and> well_formed v'"
    if lt: "capacity_' v < n" and le: "size_' v \<le> n" and ea: "elements_in_array v"
      and ok: "ArrayPtr T n \<noteq> Inl bad_alloc"
  proof -
    let ?s = "unat (size_' v)"
    let ?a = "take ?s (items_' v) @ replicate (unat n - ?s) (Type_init T)"
    have n: "unat n < 2 ^ (LENGTH('w) - 1)"
      using ok by (simp add: ArrayPtr_succeeds)
    have sb: "?s \<le> length (items_' v)"
      using ea by (simp add: elements_in_array_def)
    have sn: "?s \<le> unat n"
      using le by (simp add: word_le_nat_alt)
    have r: "Reserve T n v = Inr (v\<lparr>items_' := ?a, capacity_' := n\<rparr>)"
      using lt sb sn
      by (simp add: Reserve_def ArrayPtr_Inr [OF n] std_fill_whole std_copy_prefix)
    have len: "length ?a = unat n"
      using sb sn by simp
    have el: "take ?s ?a = take ?s (items_' v)"
      using sb by simp
    have fillv: "?a ! i = Type_init T" if "?s \<le> i" "i < unat n" for i
      using that sb by (simp add: nth_append)
    show ?thesis
      using r len el fillv n sn le
      by (simp add: elements_def invariant_def well_formed_def word_le_nat_alt)
  qed
  have mono: "capacity_' v \<le> capacity_' v'" if "Reserve T n v = Inr v'" for v'
  proof (cases "capacity_' v < n")
    case True
    with that show ?thesis
      by (auto simp: Reserve_def and_then_def split: sum.splits)
  next
    case False
    with that show ?thesis
      by (simp add: Reserve_def)
  qed
  show ?thesis
    using noop fail grow mono by blast
qed

lemma Reserve_example:
  "Reserve int_ops 2 (\<lparr>items_' = [1, 2, 42], size_' = 2, capacity_' = 3\<rparr> :: (int, 64 word) SimpleVector)
       = Inr \<lparr>items_' = [1, 2, 42], size_' = 2, capacity_' = 3\<rparr>
   \<and> Reserve int_ops 5 (\<lparr>items_' = [1, 2, 42], size_' = 2, capacity_' = 3\<rparr> :: (int, 64 word) SimpleVector)
       = Inr \<lparr>items_' = [1, 2, 0, 0, 0], size_' = 2, capacity_' = 5\<rparr>"
  by (simp add: Reserve_def ArrayPtr_def std_fill_def std_copy_def int_ops_def numeral_3_eq_3)

text \<open>
  C9. The claim is that on every vector \<open>Reserve(n)\<close> with \<open>n > capacity\<close> sets the
  capacity to \<open>n\<close> and keeps the size and the elements. The copy of \<open>{1, 2, 3}\<close> has size
  3 and capacity 0, since the copy constructor leaves \<open>capacity_\<close> at 0. \<open>Reserve(2)\<close> on
  that copy finds \<open>2 > 0\<close>, allocates 2 slots and copies the three elements into them:
  a write past the end of the new array.
\<close>

theorem Reserve_on_copy_overruns:
  "and_then (SimpleVector_init int_ops [1, 2, 3]) (SimpleVector_copy int_ops)
     = Inr (\<lparr>items_' = [1, 2, 3], size_' = 3, capacity_' = 0\<rparr> :: (int, 64 word) SimpleVector)
   \<and> capacity_' (\<lparr>items_' = [1, 2, 3], size_' = 3, capacity_' = 0\<rparr> :: (int, 64 word) SimpleVector) < 2
   \<and> Reserve int_ops 2 (\<lparr>items_' = [1, 2, 3], size_' = 3, capacity_' = 0\<rparr> :: (int, 64 word) SimpleVector)
     = Inl undefined_behaviour
   \<and> and_then (SimpleVector_init int_ops [1, 2, 3] :: error + (int, 64 word) SimpleVector)
        (\<lambda>a. and_then (SimpleVector_copy int_ops a) (Reserve int_ops 2))
     = Inl undefined_behaviour"
proof -
  have c: "and_then (SimpleVector_init int_ops [1, 2, 3]) (SimpleVector_copy int_ops)
     = Inr (\<lparr>items_' = [1, 2, 3], size_' = 3, capacity_' = 0\<rparr> :: (int, 64 word) SimpleVector)"
    by (simp add: SimpleVector_init_123 SimpleVector_copy_def ArrayPtr_def std_copy_def)
  have r: "Reserve int_ops 2 (\<lparr>items_' = [1, 2, 3], size_' = 3, capacity_' = 0\<rparr> :: (int, 64 word) SimpleVector)
     = Inl undefined_behaviour"
    by (simp add: Reserve_def ArrayPtr_def std_fill_def std_copy_def)
  have "and_then (SimpleVector_init int_ops [1, 2, 3] :: error + (int, 64 word) SimpleVector)
        (\<lambda>a. and_then (SimpleVector_copy int_ops a) (Reserve int_ops 2))
     = and_then (and_then (SimpleVector_init int_ops [1, 2, 3]) (SimpleVector_copy int_ops))
         (Reserve int_ops 2)"
    by (simp add: SimpleVector_init_123)
  with c r show ?thesis
    by simp
qed

section \<open>\<open>PushBack\<close>\<close>

lemma PushBack_fits:
  fixes v :: "('a, 'w::len word) SimpleVector"
  assumes "well_formed v" and lt: "size_' v < capacity_' v"
  shows "PushBack T x v
         = Inr (v\<lparr>items_' := (items_' v)[unat (size_' v) := x], size_' := size_' v + 1\<rparr>)"
    and "unat (size_' v + 1) = unat (size_' v) + 1"
    and "unat (size_' v) < length (items_' v)"
proof -
  show b: "unat (size_' v) < length (items_' v)"
    using assms by (simp add: well_formed_def word_less_nat_alt)
  show "unat (size_' v + 1) = unat (size_' v) + 1"
    by (rule unat_succ [OF lt])
  show "PushBack T x v
         = Inr (v\<lparr>items_' := (items_' v)[unat (size_' v) := x], size_' := size_' v + 1\<rparr>)"
    using lt b by (simp add: PushBack_def slot_write_Inr)
qed

lemma grown_capacity:
  fixes c :: "'w::len word"
  assumes "unat c < 2 ^ (LENGTH('w) - 1)"
  shows "unat (max 1 (c * 2)) = max 1 (2 * unat c)"
  by (simp add: unat_max unat_double [OF assms])

lemma PushBack_grows:
  fixes v :: "('a, 'w::len word) SimpleVector"
  assumes wf: "well_formed v" and eq: "size_' v = capacity_' v"
    and ok: "ArrayPtr T (max 1 (capacity_' v * 2)) \<noteq> Inl bad_alloc"
  shows "PushBack T x v
         = Inr (v\<lparr>items_' := (take (unat (size_' v)) (items_' v)
                    @ drop (unat (size_' v)) (map (new_slot T) [0..<unat (max 1 (capacity_' v * 2))]))
                    [unat (size_' v) := x],
                size_' := size_' v + 1, capacity_' := max 1 (capacity_' v * 2)\<rparr>)"
    and "unat (size_' v + 1) = unat (size_' v) + 1"
    and "unat (max 1 (capacity_' v * 2)) = max 1 (2 * unat (capacity_' v))"
    and "unat (size_' v) < unat (max 1 (capacity_' v * 2))"
    and "unat (max 1 (capacity_' v * 2)) < 2 ^ (LENGTH('w) - 1)"
proof -
  let ?n = "max 1 (capacity_' v * 2)"
  have c: "unat (capacity_' v) < 2 ^ (LENGTH('w) - 1)" and b: "unat (size_' v) \<le> length (items_' v)"
    using wf eq by (simp_all add: well_formed_def)
  show n: "unat ?n = max 1 (2 * unat (capacity_' v))"
    by (rule grown_capacity [OF c])
  show lim: "unat ?n < 2 ^ (LENGTH('w) - 1)"
    using ok by (simp only: ArrayPtr_succeeds)
  show s: "unat (size_' v) < unat ?n"
    using n eq by simp
  then have "size_' v < ?n"
    by (simp add: word_less_nat_alt)
  then show "unat (size_' v + 1) = unat (size_' v) + 1"
    by (rule unat_succ)
  show "PushBack T x v
         = Inr (v\<lparr>items_' := (take (unat (size_' v)) (items_' v)
                    @ drop (unat (size_' v)) (map (new_slot T) [0..<unat ?n]))
                    [unat (size_' v) := x],
                size_' := size_' v + 1, capacity_' := ?n\<rparr>)"
    using eq b s
    by (simp add: PushBack_def Let_def ArrayPtr_Inr [OF lim] std_copy_prefix slot_write_Inr)
qed

lemma PushBack_spec:
  fixes v :: "('a, 'w::len word) SimpleVector"
  assumes inv: "invariant v" and wf: "well_formed v"
    and ok: "size_' v = capacity_' v \<longrightarrow> ArrayPtr T (max 1 (capacity_' v * 2)) \<noteq> Inl bad_alloc"
  shows "\<exists>v'. PushBack T x v = Inr v'
            \<and> unat (size_' v') = unat (size_' v) + 1
            \<and> items_' v' ! unat (size_' v) = x
            \<and> take (unat (size_' v)) (items_' v') = elements v
            \<and> elements v' = elements v @ [x]
            \<and> (size_' v < capacity_' v \<longrightarrow> capacity_' v' = capacity_' v)
            \<and> (size_' v = capacity_' v \<longrightarrow> unat (capacity_' v') = max 1 (2 * unat (capacity_' v)))
            \<and> invariant v' \<and> well_formed v'"
proof (cases "size_' v < capacity_' v")
  case True
  note f = PushBack_fits [OF wf True]
  let ?v' = "v\<lparr>items_' := (items_' v)[unat (size_' v) := x], size_' := size_' v + 1\<rparr>"
  have "elements ?v' = elements v @ [x]"
    using f(2,3) by (simp add: elements_def take_Suc_update)
  moreover have "invariant ?v'"
    using True f(2) by (simp add: invariant_def word_le_nat_alt word_less_nat_alt)
  moreover have "well_formed ?v'"
    using wf by (simp add: well_formed_def)
  moreover have "size_' v \<noteq> capacity_' v"
    using True by auto
  ultimately show ?thesis
    using True f by (simp add: elements_def)
next
  case False
  with inv have eq: "size_' v = capacity_' v"
    by (simp add: invariant_def)
  with ok have a: "ArrayPtr T (max 1 (capacity_' v * 2)) \<noteq> Inl bad_alloc"
    by simp
  note g = PushBack_grows [OF wf eq a]
  let ?n = "max 1 (capacity_' v * 2)"
  let ?a = "(take (unat (size_' v)) (items_' v)
              @ drop (unat (size_' v)) (map (new_slot T) [0..<unat ?n]))[unat (size_' v) := x]"
  let ?v' = "v\<lparr>items_' := ?a, size_' := size_' v + 1, capacity_' := ?n\<rparr>"
  have b: "unat (size_' v) \<le> length (items_' v)"
    using wf eq by (simp add: well_formed_def)
  have len: "length ?a = unat ?n"
    using b g(4) by simp
  have t: "take (unat (size_' v)) ?a = take (unat (size_' v)) (items_' v)"
    using b by simp
  have "take (Suc (unat (size_' v))) ?a = take (unat (size_' v)) (items_' v) @ [x]"
    using b g(4) by (simp add: take_Suc_update)
  then have e: "elements ?v' = elements v @ [x]"
    using g(2) by (simp add: elements_def)
  have nth: "?a ! unat (size_' v) = x"
    using len g(4) by simp
  have i: "invariant ?v'"
    using g(2,4) by (simp add: invariant_def word_le_nat_alt)
  have w: "well_formed ?v'"
    using len g(5) unfolding well_formed_def by simp
  have "PushBack T x v = Inr ?v'
            \<and> unat (size_' ?v') = unat (size_' v) + 1
            \<and> items_' ?v' ! unat (size_' v) = x
            \<and> take (unat (size_' v)) (items_' ?v') = elements v
            \<and> elements ?v' = elements v @ [x]
            \<and> (size_' v < capacity_' v \<longrightarrow> capacity_' ?v' = capacity_' v)
            \<and> (size_' v = capacity_' v \<longrightarrow> unat (capacity_' ?v') = max 1 (2 * unat (capacity_' v)))
            \<and> invariant ?v' \<and> well_formed ?v'"
    using g(1) g(2) g(3) nth t e i w False by (simp add: elements_def)
  then show ?thesis
    by blast
qed


lemma PushBack_all_spec:
  fixes v :: "('a, 'w::len word) SimpleVector"
  assumes "invariant v" and "well_formed v"
    and "2 * (unat (size_' v) + length xs) < 2 ^ (LENGTH('w) - 1)"
  shows "\<exists>v'. PushBack_all T xs v = Inr v'
            \<and> unat (size_' v') = unat (size_' v) + length xs
            \<and> elements v' = elements v @ xs
            \<and> invariant v' \<and> well_formed v'"
  using assms
proof (induction xs arbitrary: v)
  case Nil
  then show ?case by simp
next
  case (Cons x xs)
  have ok: "size_' v = capacity_' v \<longrightarrow> ArrayPtr T (max 1 (capacity_' v * 2)) \<noteq> Inl bad_alloc"
  proof
    assume eq: "size_' v = capacity_' v"
    have c: "unat (capacity_' v) < 2 ^ (LENGTH('w) - 1)"
      using Cons.prems(2) by (simp add: well_formed_def)
    have "max 1 (2 * unat (capacity_' v)) < 2 ^ (LENGTH('w) - 1)"
      using Cons.prems(3) eq by simp
    then have "unat (max 1 (capacity_' v * 2)) < 2 ^ (LENGTH('w) - 1)"
      by (simp only: grown_capacity [OF c])
    then show "ArrayPtr T (max 1 (capacity_' v * 2)) \<noteq> Inl bad_alloc"
      by (simp only: ArrayPtr_succeeds)
  qed
  from PushBack_spec [OF Cons.prems(1,2) ok, of x]
  obtain v1 where v1: "PushBack T x v = Inr v1" "unat (size_' v1) = unat (size_' v) + 1"
      "elements v1 = elements v @ [x]" "invariant v1" "well_formed v1"
    by blast
  have "2 * (unat (size_' v1) + length xs) < 2 ^ (LENGTH('w) - 1)"
    using Cons.prems(3) v1(2) by simp
  from Cons.IH [OF v1(4,5) this]
  obtain v' where v': "PushBack_all T xs v1 = Inr v'" "unat (size_' v') = unat (size_' v1) + length xs"
      "elements v' = elements v1 @ xs" "invariant v'" "well_formed v'"
    by blast
  have "PushBack_all T (x # xs) v = Inr v'
            \<and> unat (size_' v') = unat (size_' v) + length (x # xs)
            \<and> elements v' = elements v @ x # xs
            \<and> invariant v' \<and> well_formed v'"
    using v1 v' by simp
  then show ?case
    by blast
qed

lemma subscript_elements:
  fixes v :: "('a, 'w::len word) SimpleVector"
  assumes "invariant v" and "well_formed v" and "i < unat (size_' v)"
  shows "subscript v (of_nat i) = Inr (elements v ! i)"
proof -
  have "unat (size_' v) < 2 ^ LENGTH('w)"
    by (rule unsigned_less)
  with assms(3) have "i < 2 ^ LENGTH('w)"
    by (rule less_trans)
  then have u: "unat (of_nat i :: 'w word) = i"
    by (simp add: unat_of_nat)
  have "i < length (items_' v)"
    using in_buffer [OF assms(1,2)] assms(3) by simp
  with u assms(3) show ?thesis
    by (simp add: subscript_def slot_read_def elements_def)
qed

text \<open>
  C4. On a vector that satisfies the invariants, \<open>PushBack(x)\<close> (when the allocation of
  the reallocating branch succeeds) puts \<open>x\<close> in slot \<open>size\<close>, adds one to the size and
  leaves the slots below \<open>size\<close> as they were. With \<open>size < capacity\<close> the capacity
  stays; with \<open>size = capacity\<close> the new capacity is \<open>max(1, 2 * capacity)\<close>. Pushing the
  values of a list \<open>xs\<close> in order onto an empty vector gives a vector of size
  \<open>length xs\<close> whose slot \<open>i\<close> reads \<open>xs ! i\<close>; the bound on \<open>length xs\<close> makes every
  allocation on the way succeed.
\<close>

theorem PushBack_appends:
  fixes v :: "('a, 'w::len word) SimpleVector"
  shows "(invariant v \<and> well_formed v
          \<and> (size_' v = capacity_' v \<longrightarrow> ArrayPtr T (max 1 (capacity_' v * 2)) \<noteq> Inl bad_alloc)
          \<longrightarrow> (\<exists>v'. PushBack T x v = Inr v'
                  \<and> unat (size_' v') = unat (size_' v) + 1
                  \<and> items_' v' ! unat (size_' v) = x
                  \<and> take (unat (size_' v)) (items_' v') = elements v
                  \<and> (size_' v < capacity_' v \<longrightarrow> capacity_' v' = capacity_' v)
                  \<and> (size_' v = capacity_' v
                       \<longrightarrow> unat (capacity_' v') = max 1 (2 * unat (capacity_' v)))
                  \<and> invariant v' \<and> well_formed v'))
       \<and> (2 * length xs < 2 ^ (LENGTH('w) - 1)
          \<longrightarrow> (\<exists>v'. PushBack_all T xs (SimpleVector_default :: ('a, 'w word) SimpleVector) = Inr v'
                  \<and> unat (size_' v') = length xs
                  \<and> (\<forall>i < length xs. subscript v' (of_nat i) = Inr (xs ! i))))"
proof (intro conjI impI)
  assume "invariant v \<and> well_formed v
          \<and> (size_' v = capacity_' v \<longrightarrow> ArrayPtr T (max 1 (capacity_' v * 2)) \<noteq> Inl bad_alloc)"
  then have h: "invariant v" "well_formed v"
      "size_' v = capacity_' v \<longrightarrow> ArrayPtr T (max 1 (capacity_' v * 2)) \<noteq> Inl bad_alloc"
    by simp_all
  from PushBack_spec [OF h, of x]
  show "\<exists>v'. PushBack T x v = Inr v'
                  \<and> unat (size_' v') = unat (size_' v) + 1
                  \<and> items_' v' ! unat (size_' v) = x
                  \<and> take (unat (size_' v)) (items_' v') = elements v
                  \<and> (size_' v < capacity_' v \<longrightarrow> capacity_' v' = capacity_' v)
                  \<and> (size_' v = capacity_' v
                       \<longrightarrow> unat (capacity_' v') = max 1 (2 * unat (capacity_' v)))
                  \<and> invariant v' \<and> well_formed v'"
    by blast
next
  let ?e = "SimpleVector_default :: ('a, 'w word) SimpleVector"
  assume n: "2 * length xs < 2 ^ (LENGTH('w) - 1)"
  have i: "invariant ?e" and w: "well_formed ?e"
    by (simp_all add: invariant_def well_formed_def SimpleVector_default_def)
  have "2 * (unat (size_' ?e) + length xs) < 2 ^ (LENGTH('w) - 1)"
    using n by (simp add: SimpleVector_default_def)
  from PushBack_all_spec [OF i w this, of T]
  obtain v' where v': "PushBack_all T xs ?e = Inr v'" "unat (size_' v') = unat (size_' ?e) + length xs"
      "elements v' = elements ?e @ xs" "invariant v'" "well_formed v'"
    by blast
  have s: "unat (size_' v') = length xs" and e: "elements v' = xs"
    using v'(2,3) by (simp_all add: SimpleVector_default_def elements_def)
  have "subscript v' (of_nat i) = Inr (xs ! i)" if "i < length xs" for i
    using subscript_elements [OF v'(4,5), of i] that s e by simp
  with v'(1) s
  show "\<exists>v'. PushBack_all T xs ?e = Inr v' \<and> unat (size_' v') = length xs
            \<and> (\<forall>i < length xs. subscript v' (of_nat i) = Inr (xs ! i))"
    by blast
qed

theorem PushBack_appends_witness:
  "(\<exists>v'. PushBack int_ops 4 (\<lparr>items_' = [1, 2, 3], size_' = 3, capacity_' = 3\<rparr> :: (int, 64 word) SimpleVector)
            = Inr v'
          \<and> unat (size_' v') = 4 \<and> items_' v' ! 3 = 4 \<and> unat (capacity_' v') = 6)
   \<and> (\<exists>v'. PushBack_all int_ops [10, 20, 30] (SimpleVector_default :: (int, 64 word) SimpleVector) = Inr v'
          \<and> unat (size_' v') = 3
          \<and> subscript v' 0 = Inr 10 \<and> subscript v' 1 = Inr 20 \<and> subscript v' 2 = Inr 30)"
proof -
  let ?v = "\<lparr>items_' = [1, 2, 3], size_' = 3, capacity_' = 3\<rparr> :: (int, 64 word) SimpleVector"
  let ?e = "SimpleVector_default :: (int, 64 word) SimpleVector"
  have h: "invariant ?v \<and> well_formed ?v
      \<and> (size_' ?v = capacity_' ?v \<longrightarrow> ArrayPtr int_ops (max 1 (capacity_' ?v * 2)) \<noteq> Inl bad_alloc)"
    by (simp add: invariant_def well_formed_def ArrayPtr_def)
  from h PushBack_appends [of ?v int_ops 4 "[10, 20, 30]"]
  obtain v' where p: "PushBack int_ops 4 ?v = Inr v'" "unat (size_' v') = unat (size_' ?v) + 1"
      "items_' v' ! unat (size_' ?v) = 4"
      "size_' ?v = capacity_' ?v \<longrightarrow> unat (capacity_' v') = max 1 (2 * unat (capacity_' ?v))"
    by blast
  then have "PushBack int_ops 4 ?v = Inr v' \<and> unat (size_' v') = 4 \<and> items_' v' ! 3 = 4
      \<and> unat (capacity_' v') = 6"
    by simp
  then have one: "\<exists>v'. PushBack int_ops 4 ?v = Inr v' \<and> unat (size_' v') = 4 \<and> items_' v' ! 3 = 4
      \<and> unat (capacity_' v') = 6"
    by blast
  have n: "2 * length [10, 20, 30 :: int] < 2 ^ (LENGTH(64) - 1)"
    by simp
  from n PushBack_appends [of ?v int_ops 4 "[10, 20, 30]"]
  obtain w' where q: "PushBack_all int_ops [10, 20, 30] ?e = Inr w'"
      "unat (size_' w') = length [10, 20, 30 :: int]"
      "\<forall>i < length [10, 20, 30 :: int]. subscript w' (of_nat i) = Inr ([10, 20, 30] ! i)"
    by blast
  have "subscript w' 0 = Inr 10 \<and> subscript w' 1 = Inr 20 \<and> subscript w' 2 = Inr 30"
    using q(3) [rule_format, of 0] q(3) [rule_format, of 1] q(3) [rule_format, of 2] by simp
  with q(1,2) have "\<exists>v'. PushBack_all int_ops [10, 20, 30] ?e = Inr v' \<and> unat (size_' v') = 3
          \<and> subscript v' 0 = Inr 10 \<and> subscript v' 1 = Inr 20 \<and> subscript v' 2 = Inr 30"
    by auto
  with one show ?thesis
    by blast
qed

section \<open>\<open>Insert\<close> and \<open>Erase\<close>\<close>

subsection \<open>The two moves inside one array\<close>

lemma move_forward_length: "length (move_forward mv n f d a) = length a"
  by (induction n arbitrary: f d a) simp_all

lemma move_backward_length: "length (move_backward mv n l d a) = length a"
  by (induction n arbitrary: l d a) simp_all

lemma move_forward_nth:
  "Suc d + n \<le> length a \<Longrightarrow> i < length a \<Longrightarrow>
   move_forward mv n (Suc d) d a ! i =
     (if i < d then a ! i
      else if i < d + n then a ! Suc i
      else if i = d + n \<and> 0 < n then mv (a ! i)
      else a ! i)"
proof (induction n arbitrary: d a)
  case 0
  then show ?case by simp
next
  case (Suc n)
  let ?a = "a[d := a ! Suc d, Suc d := mv (a ! Suc d)]"
  have "Suc (Suc d) + n \<le> length ?a" and "i < length ?a"
    using Suc.prems by simp_all
  from Suc.IH [OF this] Suc.prems show ?case
    by (auto simp: nth_list_update less_Suc_eq)
qed

lemma move_backward_nth:
  "n \<le> l \<Longrightarrow> l < length a \<Longrightarrow> i < length a \<Longrightarrow>
   move_backward mv n l (Suc l) a ! i =
     (if i < l - n then a ! i
      else if i = l - n then (if n = 0 then a ! i else mv (a ! i))
      else if i \<le> l then a ! (i - 1)
      else a ! i)"
proof (induction n arbitrary: l a)
  case 0
  then show ?case by simp
next
  case (Suc n)
  then obtain k where l: "l = Suc k"
    by (cases l) simp_all
  let ?a = "a[Suc k := a ! k, k := mv (a ! k)]"
  have "n \<le> k" and "k < length ?a" and "i < length ?a"
    using Suc.prems l by simp_all
  from Suc.IH [OF this] Suc.prems l show ?case
    by (auto simp: nth_list_update le_Suc_eq)
qed


subsection \<open>What \<open>Erase\<close> and \<open>Insert\<close> return\<close>

lemma Erase_spec:
  fixes v :: "('a, 'w::len word) SimpleVector"
  assumes inv: "invariant v" and wf: "well_formed v" and lt: "p < size_' v"
  shows "\<exists>v'. Erase T p v = Inr (v', p)
            \<and> size_' v' = size_' v - 1 \<and> capacity_' v' = capacity_' v
            \<and> elements v' = take (unat p) (elements v) @ drop (Suc (unat p)) (elements v)
            \<and> invariant v' \<and> well_formed v'"
proof -
  let ?s = "unat (size_' v)" and ?p = "unat p" and ?a = "items_' v"
  let ?r = "move_forward (moved_from T) (?s - Suc ?p) (Suc ?p) ?p ?a"
  let ?v' = "v\<lparr>items_' := ?r, size_' := size_' v - 1\<rparr>"
  have p1: "unat (p + 1) = Suc ?p"
    using unat_succ [OF lt] by simp
  have ps: "?p < ?s"
    using lt by (simp add: word_less_nat_alt)
  have sb: "?s \<le> length ?a"
    by (rule in_buffer [OF inv wf])
  have e: "Erase T p v = Inr (?v', p)"
    using p1 ps sb by (simp add: Erase_def std_copy_move_def)
  have "size_' v \<noteq> 0"
    using ps by auto
  then have s1: "unat (size_' v - 1) = ?s - 1"
    by (rule unat_minus_one)
  have len: "length ?r = length ?a"
    by (rule move_forward_length)
  have t: "take (?s - 1) ?r = take ?p ?a @ take (?s - Suc ?p) (drop (Suc ?p) ?a)"
  proof (rule nth_equalityI)
    show "length (take (?s - 1) ?r) = length (take ?p ?a @ take (?s - Suc ?p) (drop (Suc ?p) ?a))"
      using ps sb len by simp
  next
    fix i
    assume "i < length (take (?s - 1) ?r)"
    then have i: "i < ?s - 1"
      by simp
    have "Suc ?p + (?s - Suc ?p) \<le> length ?a" and "i < length ?a"
      using ps sb i by simp_all
    from move_forward_nth [OF this, of "moved_from T"] i ps sb
    show "take (?s - 1) ?r ! i = (take ?p ?a @ take (?s - Suc ?p) (drop (Suc ?p) ?a)) ! i"
      by (auto simp: nth_append)
  qed
  have el: "elements ?v' = take ?p (elements v) @ drop (Suc ?p) (elements v)"
    using t s1 ps by (simp add: elements_def drop_take min_def)
  have i': "invariant ?v'"
    using inv s1 by (simp add: invariant_def word_le_nat_alt)
  have w': "well_formed ?v'"
    using wf len by (simp add: well_formed_def)
  from e el i' w' have "Erase T p v = Inr (?v', p)
            \<and> size_' ?v' = size_' v - 1 \<and> capacity_' ?v' = capacity_' v
            \<and> elements ?v' = take (unat p) (elements v) @ drop (Suc (unat p)) (elements v)
            \<and> invariant ?v' \<and> well_formed ?v'"
    by simp
  then show ?thesis
    by blast
qed

lemma Insert_fits:
  fixes v :: "('a, 'w::len word) SimpleVector"
  assumes wf: "well_formed v" and le: "p \<le> size_' v" and lt: "size_' v < capacity_' v"
  shows "\<exists>a. Insert T p x v = Inr (v\<lparr>items_' := a, size_' := size_' v + 1\<rparr>, p)
           \<and> length a = length (items_' v)
           \<and> take (Suc (unat (size_' v))) a
               = take (unat p) (items_' v) @ [x]
                 @ take (unat (size_' v) - unat p) (drop (unat p) (items_' v))"
proof -
  let ?s = "unat (size_' v)" and ?p = "unat p" and ?a = "items_' v"
  let ?m = "move_backward (moved_from T) (?s - ?p) ?s (Suc ?s) ?a"
  let ?r = "?m[?p := x]"
  have ps: "?p \<le> ?s"
    using le by (simp add: word_le_nat_alt)
  have sb: "?s < length ?a"
    using wf lt by (simp add: well_formed_def word_less_nat_alt)
  have len: "length ?r = length ?a"
    by (simp add: move_backward_length)
  have e: "Insert T p x v = Inr (v\<lparr>items_' := ?r, size_' := size_' v + 1\<rparr>, p)"
    using lt ps sb
    by (simp add: Insert_def std_copy_backward_move_def slot_write_Inr move_backward_length)
  have t: "take (Suc ?s) ?r = take ?p ?a @ [x] @ take (?s - ?p) (drop ?p ?a)"
  proof (rule nth_equalityI)
    show "length (take (Suc ?s) ?r) = length (take ?p ?a @ [x] @ take (?s - ?p) (drop ?p ?a))"
      using ps sb len by simp
  next
    fix i
    assume "i < length (take (Suc ?s) ?r)"
    then have i: "i < Suc ?s"
      by simp
    have "?s - ?p \<le> ?s" and "?s < length ?a" and "i < length ?a"
      using sb i by simp_all
    from move_backward_nth [OF this, of "moved_from T"] i ps sb
    show "take (Suc ?s) ?r ! i = (take ?p ?a @ [x] @ take (?s - ?p) (drop ?p ?a)) ! i"
      by (auto simp: nth_append nth_list_update move_backward_length nth_Cons')
  qed
  from e len t show ?thesis
    by blast
qed

lemma Insert_grows:
  fixes v :: "('a, 'w::len word) SimpleVector"
  assumes wf: "well_formed v" and le: "p \<le> size_' v" and eq: "size_' v = capacity_' v"
    and ok: "ArrayPtr T (max 1 (capacity_' v * 2)) \<noteq> Inl bad_alloc"
  shows "\<exists>a. Insert T p x v
             = Inr (v\<lparr>items_' := a, size_' := size_' v + 1,
                      capacity_' := max 1 (capacity_' v * 2)\<rparr>, p)
           \<and> length a = unat (max 1 (capacity_' v * 2))
           \<and> take (Suc (unat (size_' v))) a
               = take (unat p) (items_' v) @ [x]
                 @ take (unat (size_' v) - unat p) (drop (unat p) (items_' v))"
proof -
  let ?s = "unat (size_' v)" and ?p = "unat p" and ?a = "items_' v"
  let ?n = "max 1 (capacity_' v * 2)"
  let ?fresh = "map (new_slot T) [0..<unat ?n]"
  let ?mid = "(take ?p ?a @ drop ?p ?fresh)[?p := x]"
  let ?new = "take (Suc ?p) ?mid @ take (?s - ?p) (drop ?p ?a) @ drop (Suc ?p + (?s - ?p)) ?mid"
  have c: "unat (capacity_' v) < 2 ^ (LENGTH('w) - 1)" and sb: "?s \<le> length ?a"
    using wf eq by (simp_all add: well_formed_def)
  have n: "unat ?n = max 1 (2 * unat (capacity_' v))"
    by (rule grown_capacity [OF c])
  have lim: "unat ?n < 2 ^ (LENGTH('w) - 1)"
    using ok by (simp only: ArrayPtr_succeeds)
  have sn: "?s < unat ?n"
    using n eq by simp
  have ps: "?p \<le> ?s"
    using le by (simp add: word_le_nat_alt)
  have l2: "length ?mid = unat ?n"
    using ps sb sn by simp
  have c1: "std_copy ?a 0 ?p ?fresh 0 = Inr (take ?p ?a @ drop ?p ?fresh)"
    using ps sb sn by (simp add: std_copy_prefix)
  have c2: "slot_write (take ?p ?a @ drop ?p ?fresh) ?p x = Inr ?mid"
    using ps sb sn by (simp add: slot_write_Inr)
  have c3: "std_copy ?a ?p ?s ?mid (Suc ?p) = Inr ?new"
    using ps sb sn l2 by (simp add: std_copy_def)
  have "\<not> size_' v < capacity_' v"
    using eq by simp
  then have e: "Insert T p x v
      = Inr (v\<lparr>items_' := ?new, size_' := size_' v + 1, capacity_' := ?n\<rparr>, p)"
    by (simp add: Insert_def Let_def ArrayPtr_Inr [OF lim] c1 c2 c3)
  have l3: "length ?new = unat ?n"
    using ps sb sn l2 by simp
  have "take (Suc ?p) ?mid = take ?p ?a @ [x]"
    using ps sb sn by (simp add: take_Suc_update)
  then have t: "take (Suc ?s) ?new = take ?p ?a @ [x] @ take (?s - ?p) (drop ?p ?a)"
    using ps sb by (simp add: Suc_diff_le)
  from e l3 t show ?thesis
    by blast
qed


lemma Insert_spec:
  fixes v :: "('a, 'w::len word) SimpleVector"
  assumes inv: "invariant v" and wf: "well_formed v" and le: "p \<le> size_' v"
    and ok: "size_' v = capacity_' v \<longrightarrow> ArrayPtr T (max 1 (capacity_' v * 2)) \<noteq> Inl bad_alloc"
  shows "\<exists>v'. Insert T p x v = Inr (v', p)
            \<and> size_' v' = size_' v + 1 \<and> unat (size_' v') = Suc (unat (size_' v))
            \<and> elements v' = take (unat p) (elements v) @ [x] @ drop (unat p) (elements v)
            \<and> invariant v' \<and> well_formed v'"
proof -
  let ?s = "unat (size_' v)" and ?p = "unat p"
  have ps: "?p \<le> ?s"
    using le by (simp add: word_le_nat_alt)
  have sb: "?s \<le> length (items_' v)"
    by (rule in_buffer [OF inv wf])
  have old: "take ?p (elements v) @ [x] @ drop ?p (elements v)
      = take ?p (items_' v) @ [x] @ take (?s - ?p) (drop ?p (items_' v))"
    using ps by (simp add: elements_def drop_take min_def)
  show ?thesis
  proof (cases "size_' v < capacity_' v")
    case True
    from Insert_fits [OF wf le True, of T x]
    obtain a where a: "Insert T p x v = Inr (v\<lparr>items_' := a, size_' := size_' v + 1\<rparr>, p)"
        "length a = length (items_' v)"
        "take (Suc ?s) a = take ?p (items_' v) @ [x] @ take (?s - ?p) (drop ?p (items_' v))"
      by blast
    let ?v' = "v\<lparr>items_' := a, size_' := size_' v + 1\<rparr>"
    have s1: "unat (size_' v + 1) = Suc ?s"
      using unat_succ [OF True] by simp
    have "elements ?v' = take ?p (elements v) @ [x] @ drop ?p (elements v)"
      using a(3) s1 old by (simp add: elements_def)
    moreover have "invariant ?v'"
      using True s1 by (simp add: invariant_def word_le_nat_alt word_less_nat_alt)
    moreover have "well_formed ?v'"
      using wf a(2) by (simp add: well_formed_def)
    ultimately have "Insert T p x v = Inr (?v', p)
            \<and> size_' ?v' = size_' v + 1 \<and> unat (size_' ?v') = Suc (unat (size_' v))
            \<and> elements ?v' = take (unat p) (elements v) @ [x] @ drop (unat p) (elements v)
            \<and> invariant ?v' \<and> well_formed ?v'"
      using a(1) s1 by simp
    then show ?thesis
      by blast
  next
    case False
    with inv have eq: "size_' v = capacity_' v"
      by (simp add: invariant_def)
    with ok have al: "ArrayPtr T (max 1 (capacity_' v * 2)) \<noteq> Inl bad_alloc"
      by simp
    let ?n = "max 1 (capacity_' v * 2)"
    from Insert_grows [OF wf le eq al, of x]
    obtain a where a: "Insert T p x v
          = Inr (v\<lparr>items_' := a, size_' := size_' v + 1, capacity_' := ?n\<rparr>, p)"
        "length a = unat ?n"
        "take (Suc ?s) a = take ?p (items_' v) @ [x] @ take (?s - ?p) (drop ?p (items_' v))"
      by blast
    let ?v' = "v\<lparr>items_' := a, size_' := size_' v + 1, capacity_' := ?n\<rparr>"
    note g = PushBack_grows [OF wf eq al]
    have s1: "unat (size_' v + 1) = Suc ?s"
      using g(2) by simp
    have "elements ?v' = take ?p (elements v) @ [x] @ drop ?p (elements v)"
      using a(3) s1 old by (simp add: elements_def)
    moreover have "invariant ?v'"
      using g(4) s1 by (simp add: invariant_def word_le_nat_alt)
    moreover have "well_formed ?v'"
      using a(2) g(5) unfolding well_formed_def by simp
    ultimately have "Insert T p x v = Inr (?v', p)
            \<and> size_' ?v' = size_' v + 1 \<and> unat (size_' ?v') = Suc (unat (size_' v))
            \<and> elements ?v' = take (unat p) (elements v) @ [x] @ drop (unat p) (elements v)
            \<and> invariant ?v' \<and> well_formed ?v'"
      using a(1) s1 by simp
    then show ?thesis
      by blast
  qed
qed

text \<open>
  C5. On a vector that satisfies the invariants and for a position \<open>p \<le> size\<close>,
  \<open>Insert(p, x)\<close> (when the allocation of its reallocating branch succeeds) returns the
  position \<open>p\<close> and leaves the elements with \<open>x\<close> inserted before position \<open>p\<close>;
  \<open>Erase(p)\<close> on the result returns, and the elements and the size are then those of the
  vector before the \<open>Insert\<close>. The hypothesis on the allocation concerns only the branch
  \<open>size = capacity\<close>: the statement covers the \<open>Insert\<close> that fits and the one that
  reallocates.
\<close>

theorem Insert_then_Erase:
  fixes v :: "('a, 'w::len word) SimpleVector"
  assumes inv: "invariant v" and wf: "well_formed v" and le: "p \<le> size_' v"
    and ok: "size_' v = capacity_' v \<longrightarrow> ArrayPtr T (max 1 (capacity_' v * 2)) \<noteq> Inl bad_alloc"
  shows "\<exists>v1 v2. Insert T p x v = Inr (v1, p) \<and> Erase T p v1 = Inr (v2, p)
            \<and> elements v1 = take (unat p) (elements v) @ [x] @ drop (unat p) (elements v)
            \<and> elements v2 = elements v \<and> size_' v2 = size_' v
            \<and> invariant v2 \<and> well_formed v2"
proof -
  from Insert_spec [OF assms, of x]
  obtain v1 where v1: "Insert T p x v = Inr (v1, p)" "size_' v1 = size_' v + 1"
      "unat (size_' v1) = Suc (unat (size_' v))"
      "elements v1 = take (unat p) (elements v) @ [x] @ drop (unat p) (elements v)"
      "invariant v1" "well_formed v1"
    by blast
  have ps: "unat p \<le> unat (size_' v)"
    using le by (simp add: word_le_nat_alt)
  then have lt: "p < size_' v1"
    using v1(3) by (simp add: word_less_nat_alt)
  from Erase_spec [OF v1(5,6) lt, of T]
  obtain v2 where v2: "Erase T p v1 = Inr (v2, p)" "size_' v2 = size_' v1 - 1"
      "elements v2 = take (unat p) (elements v1) @ drop (Suc (unat p)) (elements v1)"
      "invariant v2" "well_formed v2"
    by blast
  have "length (elements v) = unat (size_' v)"
    using in_buffer [OF inv wf] by (simp add: elements_def)
  with ps have "length (take (unat p) (elements v)) = unat p"
    by simp
  then have "take (unat p) (elements v1) @ drop (Suc (unat p)) (elements v1) = elements v"
    unfolding v1(4) by simp
  with v2(3) have e: "elements v2 = elements v"
    by simp
  have s: "size_' v2 = size_' v"
    using v2(2) v1(2) by simp
  from v1(1,4) v2(1,4,5) e s show ?thesis
    by blast
qed

theorem Insert_then_Erase_witness:
  "(\<exists>v1 v2. Insert int_ops 1 9 (\<lparr>items_' = [1, 2, 3], size_' = 3, capacity_' = 3\<rparr> :: (int, 64 word) SimpleVector)
              = Inr (v1, 1)
           \<and> elements v1 = [1, 9, 2, 3] \<and> Erase int_ops 1 v1 = Inr (v2, 1)
           \<and> elements v2 = [1, 2, 3] \<and> size_' v2 = 3)
   \<and> (\<exists>v1 v2. Insert int_ops 2 9 (\<lparr>items_' = [1, 2, 3], size_' = 2, capacity_' = 3\<rparr> :: (int, 64 word) SimpleVector)
              = Inr (v1, 2)
           \<and> elements v1 = [1, 2, 9] \<and> Erase int_ops 2 v1 = Inr (v2, 2)
           \<and> elements v2 = [1, 2] \<and> size_' v2 = 2)"
proof -
  let ?full = "\<lparr>items_' = [1, 2, 3], size_' = 3, capacity_' = 3\<rparr> :: (int, 64 word) SimpleVector"
  let ?room = "\<lparr>items_' = [1, 2, 3], size_' = 2, capacity_' = 3\<rparr> :: (int, 64 word) SimpleVector"
  have f: "invariant ?full" "well_formed ?full" "(1 :: 64 word) \<le> size_' ?full"
      "size_' ?full = capacity_' ?full
         \<longrightarrow> ArrayPtr int_ops (max 1 (capacity_' ?full * 2)) \<noteq> Inl bad_alloc"
    by (simp_all add: invariant_def well_formed_def ArrayPtr_def)
  have r: "invariant ?room" "well_formed ?room" "(2 :: 64 word) \<le> size_' ?room"
      "size_' ?room = capacity_' ?room
         \<longrightarrow> ArrayPtr int_ops (max 1 (capacity_' ?room * 2)) \<noteq> Inl bad_alloc"
    by (simp_all add: invariant_def well_formed_def)
  from Insert_then_Erase [OF f, of 9]
  obtain v1 v2 where a: "Insert int_ops 1 9 ?full = Inr (v1, 1)" "Erase int_ops 1 v1 = Inr (v2, 1)"
      "elements v1 = take (unat (1 :: 64 word)) (elements ?full) @ [9]
                       @ drop (unat (1 :: 64 word)) (elements ?full)"
      "elements v2 = elements ?full" "size_' v2 = size_' ?full"
    by blast
  then have one: "\<exists>v1 v2. Insert int_ops 1 9 ?full = Inr (v1, 1)
           \<and> elements v1 = [1, 9, 2, 3] \<and> Erase int_ops 1 v1 = Inr (v2, 1)
           \<and> elements v2 = [1, 2, 3] \<and> size_' v2 = 3"
    by (auto simp: elements_def)
  from Insert_then_Erase [OF r, of 9]
  obtain w1 w2 where b: "Insert int_ops 2 9 ?room = Inr (w1, 2)" "Erase int_ops 2 w1 = Inr (w2, 2)"
      "elements w1 = take (unat (2 :: 64 word)) (elements ?room) @ [9]
                       @ drop (unat (2 :: 64 word)) (elements ?room)"
      "elements w2 = elements ?room" "size_' w2 = size_' ?room"
    by blast
  then have two: "\<exists>v1 v2. Insert int_ops 2 9 ?room = Inr (v1, 2)
           \<and> elements v1 = [1, 2, 9] \<and> Erase int_ops 2 v1 = Inr (v2, 2)
           \<and> elements v2 = [1, 2] \<and> size_' v2 = 2"
    by (auto simp: elements_def)
  from one two show ?thesis
    by blast
qed

section \<open>The array of every vector is well formed\<close>

text \<open>
  Every constructor that returns gives a well-formed vector, and every member function
  that returns keeps a well-formed vector well formed, whatever its arguments: the
  hypothesis \<open>well_formed\<close> of the theorems above excludes no vector that a program
  can build.
\<close>

lemma and_then_eq_Inr: "and_then m f = Inr y \<longleftrightarrow> (\<exists>x. m = Inr x \<and> f x = Inr y)"
  by (cases m) simp_all

lemma ArrayPtr_length:
  fixes n :: "'w::len word"
  assumes "ArrayPtr T n = Inr a"
  shows "length a = unat n \<and> unat n < 2 ^ (LENGTH('w) - 1)"
  using assms by (auto simp: ArrayPtr_def split: if_splits)

lemma std_fill_length: "std_fill a f l x = Inr r \<Longrightarrow> length r = length a"
  by (auto simp: std_fill_def split: if_splits)

lemma std_copy_length: "std_copy src f l dst d = Inr r \<Longrightarrow> length r = length dst"
  by (auto simp: std_copy_def split: if_splits)

lemma slot_write_length: "slot_write a i x = Inr r \<Longrightarrow> length r = length a"
  by (auto simp: slot_write_def split: if_splits)

lemma std_copy_move_length: "std_copy_move T a f l d = Inr r \<Longrightarrow> length r = length a"
  by (auto simp: std_copy_move_def move_forward_length split: if_splits)

lemma std_copy_backward_move_length:
  "std_copy_backward_move T a f l d = Inr r \<Longrightarrow> length r = length a"
  by (auto simp: std_copy_backward_move_def move_backward_length split: if_splits)

lemma Resize_loop_length: "Resize_loop T i n a = Inr r \<Longrightarrow> length r = length a"
proof (induction T i n a arbitrary: r rule: Resize_loop.induct)
  case (1 T i new_size a)
  show ?case
  proof (cases "i < new_size")
    case True
    with "1.prems" obtain a1 where a1: "slot_write a (unat i) (Type_init T) = Inr a1"
        "Resize_loop T (i + 1) new_size a1 = Inr r"
      by (subst (asm) Resize_loop.simps) (auto simp: and_then_eq_Inr)
    from "1.IH" [OF True a1(2)] slot_write_length [OF a1(1)] show ?thesis
      by simp
  next
    case False
    with "1.prems" show ?thesis
      by (subst (asm) Resize_loop.simps) simp
  qed
qed

lemma well_formed_default: "well_formed (SimpleVector_default :: ('a, 'w::len word) SimpleVector)"
  by (simp add: SimpleVector_default_def well_formed_def)

lemma well_formed_sized:
  "SimpleVector_sized T n = Inr v \<Longrightarrow> well_formed v"
  by (auto simp: SimpleVector_sized_def well_formed_def and_then_eq_Inr
      dest!: ArrayPtr_length std_fill_length split: if_splits)

lemma well_formed_filled:
  "SimpleVector_filled T n x = Inr v \<Longrightarrow> well_formed v"
  by (auto simp: SimpleVector_filled_def well_formed_def and_then_eq_Inr
      dest!: ArrayPtr_length std_fill_length split: if_splits)

lemma well_formed_init:
  "SimpleVector_init T init = Inr v \<Longrightarrow> well_formed v"
  by (auto simp: SimpleVector_init_def well_formed_def and_then_eq_Inr
      dest!: ArrayPtr_length std_copy_length)

lemma well_formed_copy:
  "SimpleVector_copy T other = Inr v \<Longrightarrow> well_formed v"
  by (auto simp: SimpleVector_copy_def well_formed_def and_then_eq_Inr
      dest!: ArrayPtr_length std_copy_length)

lemma well_formed_reserved:
  "SimpleVector_reserved T n = Inr v \<Longrightarrow> well_formed v"
  by (auto simp: SimpleVector_reserved_def well_formed_def and_then_eq_Inr
      dest!: ArrayPtr_length)

lemma well_formed_Reserve:
  "well_formed v \<Longrightarrow> Reserve T n v = Inr v' \<Longrightarrow> well_formed v'"
  by (auto simp: Reserve_def well_formed_def and_then_eq_Inr
      dest!: ArrayPtr_length std_fill_length std_copy_length split: if_splits)

lemma well_formed_PushBack:
  "well_formed v \<Longrightarrow> PushBack T x v = Inr v' \<Longrightarrow> well_formed v'"
  by (auto simp: PushBack_def Let_def well_formed_def and_then_eq_Inr
      dest!: ArrayPtr_length slot_write_length std_copy_length split: if_splits)

lemma well_formed_Insert:
  "well_formed v \<Longrightarrow> Insert T p x v = Inr (v', q) \<Longrightarrow> well_formed v'"
  by (auto simp: Insert_def Let_def well_formed_def and_then_eq_Inr
      dest!: ArrayPtr_length slot_write_length std_copy_length std_copy_backward_move_length
      split: if_splits)

lemma well_formed_Erase:
  "well_formed v \<Longrightarrow> Erase T p v = Inr (v', q) \<Longrightarrow> well_formed v'"
  by (auto simp: Erase_def well_formed_def and_then_eq_Inr dest!: std_copy_move_length)

lemma well_formed_Resize:
  assumes "well_formed v" and "Resize T n v = Inr v'"
  shows "well_formed v'"
proof -
  consider "n \<le> size_' v" | "\<not> n \<le> size_' v" "n \<le> capacity_' v"
    | "\<not> n \<le> size_' v" "\<not> n \<le> capacity_' v"
    by blast
  then show ?thesis
  proof cases
    case 1
    with assms show ?thesis
      by (auto simp: Resize_def well_formed_def)
  next
    case 2
    with assms(2) obtain a where "Resize_loop T (size_' v) n (items_' v) = Inr a"
        and "v' = v\<lparr>items_' := a\<rparr>"
      by (auto simp: Resize_def and_then_eq_Inr)
    with assms(1) Resize_loop_length [of T "size_' v" n "items_' v" a] show ?thesis
      by (simp add: well_formed_def)
  next
    case 3
    let ?n = "max (capacity_' v * 2) n"
    from 3 assms(2) obtain a0 a1 a2 where "ArrayPtr T ?n = Inr a0"
        "std_fill a0 0 (unat ?n) (Type_init T) = Inr a1"
        "std_copy (items_' v) 0 (unat (size_' v)) a1 0 = Inr a2"
        "v' = v\<lparr>items_' := a2, size_' := n, capacity_' := ?n\<rparr>"
      by (auto simp: Resize_def Let_def and_then_eq_Inr)
    with ArrayPtr_length [of T ?n a0] std_fill_length [of a0 0 "unat ?n" "Type_init T" a1]
      std_copy_length [of "items_' v" 0 "unat (size_' v)" a1 0 a2]
    show ?thesis
      by (simp add: well_formed_def)
  qed
qed

lemma well_formed_PopBack: "well_formed v \<Longrightarrow> well_formed (PopBack v)"
  by (simp add: PopBack_def well_formed_def)

lemma well_formed_Clear: "well_formed v \<Longrightarrow> well_formed (Clear v)"
  by (simp add: Clear_def well_formed_def)

lemma well_formed_move:
  "well_formed a \<Longrightarrow> well_formed (fst (SimpleVector_move a)) \<and> well_formed (snd (SimpleVector_move a))"
  by (simp add: SimpleVector_move_def swap_exchanges well_formed_default)

lemma well_formed_move_assign:
  "\<forall>x. well_formed (st x) \<Longrightarrow> well_formed (move_assign st this rhs x)"
  by (simp add: move_assign_def SimpleVector_move_def swap_exchanges well_formed_default Let_def)

lemma well_formed_copy_assign:
  "\<forall>x. well_formed (st x) \<Longrightarrow> copy_assign T st this rhs = Inr st' \<Longrightarrow> well_formed (st' x)"
  by (auto simp: copy_assign_def swap_exchanges and_then_eq_Inr split: if_splits
      dest: well_formed_copy)

section \<open>The class invariant and the copy constructor\<close>

lemma PopBack_nonempty:
  fixes v :: "('a, 'w::len word) SimpleVector"
  assumes "invariant v" and "size_' v \<noteq> 0"
  shows "invariant (PopBack v)" and "unat (size_' (PopBack v)) = unat (size_' v) - 1"
proof -
  show s: "unat (size_' (PopBack v)) = unat (size_' v) - 1"
    using unat_minus_one [OF assms(2)] by (simp add: PopBack_def)
  with assms(1) show "invariant (PopBack v)"
    by (simp add: invariant_def PopBack_def word_le_nat_alt)
qed

text \<open>
  C1. The claim is that \<open>size \<le> capacity\<close> holds in every state that constructors and
  member functions reach, copy construction included. The copy constructor sets the
  size and leaves the capacity at 0: the copy of the vector \<open>{1, 2, 3}\<close> has size 3 and
  capacity 0 and does not satisfy the invariant.
\<close>

theorem copy_constructor_breaks_invariant:
  "and_then (SimpleVector_init int_ops [1, 2, 3]) (SimpleVector_copy int_ops)
     = Inr (\<lparr>items_' = [1, 2, 3], size_' = 3, capacity_' = 0\<rparr> :: (int, 64 word) SimpleVector)
   \<and> \<not> invariant (\<lparr>items_' = [1, 2, 3], size_' = 3, capacity_' = 0\<rparr> :: (int, 64 word) SimpleVector)"
  by (simp add: SimpleVector_init_123 SimpleVector_copy_def ArrayPtr_def std_copy_def invariant_def)

text \<open>
  What the copy constructor and copy assignment do get right: the copy of a vector that
  satisfies the invariants has the size and the elements of its source and an array with
  as many slots as the source has capacity; assignment to another vector replaces that
  vector alone, and self-assignment changes nothing.
\<close>

lemma SimpleVector_copy_spec:
  fixes a :: "('a, 'w::len word) SimpleVector"
  assumes "invariant a" and "well_formed a"
  shows "\<exists>b. SimpleVector_copy T a = Inr b \<and> size_' b = size_' a \<and> elements b = elements a
            \<and> length (items_' b) = unat (capacity_' a) \<and> capacity_' b = 0"
proof -
  have c: "unat (capacity_' a) < 2 ^ (LENGTH('w) - 1)"
    using assms(2) by (simp add: well_formed_def)
  have s: "unat (size_' a) \<le> length (items_' a)"
    by (rule in_buffer [OF assms])
  have sc: "unat (size_' a) \<le> unat (capacity_' a)"
    using assms(1) by (simp add: invariant_def word_le_nat_alt)
  show ?thesis
    using s sc by (simp add: SimpleVector_copy_def ArrayPtr_Inr [OF c] std_copy_prefix elements_def)
qed

lemma copy_assign_self: "copy_assign T st a a = Inr st"
  by (simp add: copy_assign_def)

lemma copy_assign_other:
  assumes "this \<noteq> rhs" and "SimpleVector_copy T (st rhs) = Inr b"
  shows "copy_assign T st this rhs = Inr (st(this := b))"
  using assms by (simp add: copy_assign_def swap_exchanges)

text \<open>
  C2. The claim is that a copy has the size, the elements and the capacity of its
  source, and can then be changed without effect on the source. The vector \<open>{1, 2}\<close>
  after \<open>PushBack(3)\<close> has the elements 1, 2, 3 and capacity 4. Its copy gets an array
  of 4 slots, the three elements and size 3, and capacity 0, by the copy constructor and
  by copy assignment alike. \<open>PushBack(5)\<close> on that copy takes the reallocating branch,
  allocates \<open>max(1, 2 * 0) = 1\<close> slot and copies three elements into it.
\<close>

theorem copy_loses_capacity:
  "and_then (SimpleVector_init int_ops [1, 2]) (PushBack int_ops 3)
     = Inr (\<lparr>items_' = [1, 2, 3, 42], size_' = 3, capacity_' = 4\<rparr> :: (int, 64 word) SimpleVector)
   \<and> SimpleVector_copy int_ops (\<lparr>items_' = [1, 2, 3, 42], size_' = 3, capacity_' = 4\<rparr> :: (int, 64 word) SimpleVector)
     = Inr \<lparr>items_' = [1, 2, 3, 42], size_' = 3, capacity_' = 0\<rparr>
   \<and> (\<exists>st'. copy_assign int_ops ((\<lambda>_. SimpleVector_default)
           (0 := \<lparr>items_' = [1, 2, 3, 42], size_' = 3, capacity_' = 4\<rparr>) :: (int, 64) store) 1 0 = Inr st'
          \<and> st' 1 = \<lparr>items_' = [1, 2, 3, 42], size_' = 3, capacity_' = 0\<rparr>)
   \<and> PushBack int_ops 5 (\<lparr>items_' = [1, 2, 3, 42], size_' = 3, capacity_' = 0\<rparr> :: (int, 64 word) SimpleVector)
     = Inl undefined_behaviour"
proof -
  have i: "(SimpleVector_init int_ops [1, 2] :: error + (int, 64 word) SimpleVector)
      = Inr \<lparr>items_' = [1, 2], size_' = 2, capacity_' = 2\<rparr>"
    by (simp add: SimpleVector_init_def ArrayPtr_def std_copy_def)
  have p: "PushBack int_ops 3 (\<lparr>items_' = [1, 2], size_' = 2, capacity_' = 2\<rparr> :: (int, 64 word) SimpleVector)
      = Inr \<lparr>items_' = [1, 2, 3, 42], size_' = 3, capacity_' = 4\<rparr>"
    by (simp add: PushBack_def ArrayPtr_def std_copy_def slot_write_def int_ops_def upt_conv_Cons)
  have c: "SimpleVector_copy int_ops (\<lparr>items_' = [1, 2, 3, 42], size_' = 3, capacity_' = 4\<rparr> :: (int, 64 word) SimpleVector)
      = Inr \<lparr>items_' = [1, 2, 3, 42], size_' = 3, capacity_' = 0\<rparr>"
    by (simp add: SimpleVector_copy_def ArrayPtr_def std_copy_def int_ops_def upt_conv_Cons)
  have u: "PushBack int_ops 5 (\<lparr>items_' = [1, 2, 3, 42], size_' = 3, capacity_' = 0\<rparr> :: (int, 64 word) SimpleVector)
      = Inl undefined_behaviour"
    by (simp add: PushBack_def ArrayPtr_def std_copy_def)
  show ?thesis
    using c by (simp add: i p u copy_assign_def swap_exchanges)
qed

section \<open>\<open>Resize\<close>\<close>

text \<open>
  The three branches of \<open>Resize\<close> on a vector that satisfies the invariants. The first
  sets the size, the third reallocates to \<open>max(2 * capacity, n)\<close> slots and sets the size
  and the capacity. The second fills the slots from \<open>size\<close> up to \<open>n\<close> with \<open>Type()\<close> and
  returns the vector with the size it had.
\<close>

lemma Resize_loop_fills:
  "i \<le> n \<Longrightarrow> unat n \<le> length a \<Longrightarrow>
   Resize_loop T i n a
     = Inr (take (unat i) a @ replicate (unat n - unat i) (Type_init T) @ drop (unat n) a)"
proof (induction T i n a rule: Resize_loop.induct)
  case (1 T i new_size a)
  show ?case
  proof (cases "i < new_size")
    case True
    let ?a = "a[unat i := Type_init T]"
    have s: "unat (i + 1) = Suc (unat i)"
      using unat_succ [OF True] by simp
    have lt: "unat i < unat new_size"
      using True by (simp add: word_less_nat_alt)
    then have le: "i + 1 \<le> new_size"
      using s by (simp add: word_le_nat_alt)
    have w: "slot_write a (unat i) (Type_init T) = Inr ?a"
      using lt "1.prems"(2) by (simp add: slot_write_Inr)
    have "Resize_loop T (i + 1) new_size ?a
        = Inr (take (unat (i + 1)) ?a @ replicate (unat new_size - unat (i + 1)) (Type_init T)
               @ drop (unat new_size) ?a)"
      using "1.IH" [OF True le] "1.prems"(2) by simp
    also have "take (unat (i + 1)) ?a = take (unat i) a @ [Type_init T]"
      using lt "1.prems"(2) s by (simp add: take_Suc_update)
    also have "drop (unat new_size) ?a = drop (unat new_size) a"
      using lt by simp
    finally have "Resize_loop T (i + 1) new_size ?a
        = Inr (take (unat i) a @ replicate (unat new_size - unat i) (Type_init T)
               @ drop (unat new_size) a)"
      using lt s by (simp add: replicate_app_Cons_same Suc_diff_Suc flip: replicate_Suc)
    with True w show ?thesis
      by (subst Resize_loop.simps) simp
  next
    case False
    with "1.prems"(1) have "i = new_size"
      by simp
    then show ?thesis
      by (subst Resize_loop.simps) simp
  qed
qed

lemma Resize_spec:
  fixes v :: "('a, 'w::len word) SimpleVector"
  assumes inv: "invariant v" and wf: "well_formed v"
  shows "n \<le> size_' v \<Longrightarrow> Resize T n v = Inr (v\<lparr>size_' := n\<rparr>)"
    and "size_' v < n \<Longrightarrow> n \<le> capacity_' v \<Longrightarrow>
         Resize T n v
           = Inr (v\<lparr>items_' := take (unat (size_' v)) (items_' v)
                      @ replicate (unat n - unat (size_' v)) (Type_init T)
                      @ drop (unat n) (items_' v)\<rparr>)"
    and "capacity_' v < n \<Longrightarrow> ArrayPtr T (max (capacity_' v * 2) n) \<noteq> Inl bad_alloc \<Longrightarrow>
         Resize T n v
           = Inr (v\<lparr>items_' := take (unat (size_' v)) (items_' v)
                      @ replicate (unat (max (capacity_' v * 2) n) - unat (size_' v)) (Type_init T),
                    size_' := n, capacity_' := max (capacity_' v * 2) n\<rparr>)
         \<and> unat (max (capacity_' v * 2) n) = max (2 * unat (capacity_' v)) (unat n)"
proof -
  show "n \<le> size_' v \<Longrightarrow> Resize T n v = Inr (v\<lparr>size_' := n\<rparr>)"
    by (simp add: Resize_def)
next
  assume a: "size_' v < n" "n \<le> capacity_' v"
  then have "size_' v \<le> n" and "unat n \<le> length (items_' v)"
    using wf by (simp_all add: well_formed_def word_le_nat_alt word_less_nat_alt)
  from Resize_loop_fills [OF this, of T] a
  show "Resize T n v
           = Inr (v\<lparr>items_' := take (unat (size_' v)) (items_' v)
                      @ replicate (unat n - unat (size_' v)) (Type_init T)
                      @ drop (unat n) (items_' v)\<rparr>)"
    by (simp add: Resize_def not_le)
next
  let ?n = "max (capacity_' v * 2) n"
  assume a: "capacity_' v < n" "ArrayPtr T ?n \<noteq> Inl bad_alloc"
  have c: "unat (capacity_' v) < 2 ^ (LENGTH('w) - 1)"
    using wf by (simp add: well_formed_def)
  have n: "unat ?n = max (2 * unat (capacity_' v)) (unat n)"
    by (simp add: unat_max unat_double [OF c])
  have lim: "unat ?n < 2 ^ (LENGTH('w) - 1)"
    using a(2) by (simp only: ArrayPtr_succeeds)
  have sb: "unat (size_' v) \<le> length (items_' v)"
    by (rule in_buffer [OF inv wf])
  have sn: "unat (size_' v) \<le> unat ?n"
    using inv a(1) n by (simp add: invariant_def word_le_nat_alt word_less_nat_alt)
  have "\<not> n \<le> size_' v" "\<not> n \<le> capacity_' v"
    using inv a(1) by (auto simp: invariant_def)
  then have "Resize T n v
           = Inr (v\<lparr>items_' := take (unat (size_' v)) (items_' v)
                      @ replicate (unat ?n - unat (size_' v)) (Type_init T),
                    size_' := n, capacity_' := ?n\<rparr>)"
    using sb sn
    by (simp add: Resize_def Let_def ArrayPtr_Inr [OF lim] std_fill_whole std_copy_prefix)
  with n show "Resize T n v
           = Inr (v\<lparr>items_' := take (unat (size_' v)) (items_' v)
                      @ replicate (unat ?n - unat (size_' v)) (Type_init T),
                    size_' := n, capacity_' := ?n\<rparr>)
         \<and> unat ?n = max (2 * unat (capacity_' v)) (unat n)"
    by simp
qed

text \<open>
  C3. The claim is that after \<open>Resize(n)\<close> the size is \<open>n\<close>. For
  \<open>size < n \<le> capacity\<close> the member function writes \<open>Type()\<close> into the slots from
  \<open>size\<close> up to \<open>n\<close> and leaves \<open>size_\<close> as it is: the vector \<open>{1, 2, 3}\<close> after
  \<open>PopBack()\<close> and \<open>Resize(3)\<close> has size 2.
\<close>

theorem Resize_within_capacity_keeps_size:
  "and_then (SimpleVector_init int_ops [1, 2, 3]) (\<lambda>v. Resize int_ops 3 (PopBack v))
     = Inr (\<lparr>items_' = [1, 2, 0], size_' = 2, capacity_' = 3\<rparr> :: (int, 64 word) SimpleVector)"
  by (simp add: SimpleVector_init_123 PopBack_def Resize_def Resize_loop.simps slot_write_def
      int_ops_def)

end
